theory Spec2Isabelle
  imports Complex_Main
begin

section \<open>The limit order book of marketlearn/orderbook/lob.py\<close>

text \<open>
  The class \<open>Book\<close> keeps three numpy arrays of equal length: \<open>price\<close> (the ticks),
  \<open>bid_size\<close> and \<open>ask_size\<close> (the resting quantities at each tick). Arrays are lists of
  integers here. The cells are 64-bit signed numpy integers: a sum or difference of a
  cell and a Python integer wraps around modulo 2^64, and a Python integer outside the
  64-bit range raises OverflowError.
  Every exception that the Python raises is a value of \<open>error\<close>, named after the
  Python exception; a method that mutates the book returns the new book. Each method
  assigns to an array in its last statement only, so a call that raises leaves the
  book as it was.
\<close>

subsection \<open>Errors and the numpy operations used by the class\<close>

datatype error = ValueError | IndexError | AttributeError | TypeError | KeyError | OverflowError

definition bind_err :: "error + 'a \<Rightarrow> ('a \<Rightarrow> error + 'b) \<Rightarrow> error + 'b" where
  "bind_err r f = (case r of Inl e \<Rightarrow> Inl e | Inr x \<Rightarrow> f x)"

text \<open>
  The range of a 64-bit signed integer, the value that a result takes after
  wrap-around, and \<open>x + qty\<close> and \<open>x - qty\<close> for a cell \<open>x\<close> and a Python integer \<open>qty\<close>:
  numpy converts \<open>qty\<close> to the type of the cell, which raises OverflowError when it
  does not fit, and the operation on the two 64-bit values wraps around.
\<close>

definition int64 :: "int \<Rightarrow> bool" where
  "int64 x \<longleftrightarrow> - (2 ^ 63) \<le> x \<and> x < 2 ^ 63"

definition wrap64 :: "int \<Rightarrow> int" where
  "wrap64 x = (x + 2 ^ 63) mod 2 ^ 64 - 2 ^ 63"

definition int64_add :: "int \<Rightarrow> int \<Rightarrow> error + int" where
  "int64_add x qty = (if int64 qty then Inr (wrap64 (x + qty)) else Inl OverflowError)"

definition int64_sub :: "int \<Rightarrow> int \<Rightarrow> error + int" where
  "int64_sub x qty = (if int64 qty then Inr (wrap64 (x - qty)) else Inl OverflowError)"

text \<open>\<open>np.arange(a, b)\<close>: the integers from \<open>a\<close> up to \<open>b - 1\<close>.\<close>

definition arange :: "int \<Rightarrow> int \<Rightarrow> int list" where
  "arange a b = [a..b - 1]"

text \<open>\<open>np.repeat(v, n)\<close>.\<close>

definition np_repeat :: "int \<Rightarrow> int \<Rightarrow> int list" where
  "np_repeat v n = replicate (nat n) v"

text \<open>\<open>xs[mask]\<close> for a boolean mask of the length of \<open>xs\<close>.\<close>

definition mask_select :: "'a list \<Rightarrow> bool list \<Rightarrow> 'a list" where
  "mask_select xs m = map fst (filter snd (zip xs m))"

text \<open>\<open>xs[mask] = v\<close>: every selected cell receives \<open>v\<close>.\<close>

definition mask_assign :: "'a list \<Rightarrow> bool list \<Rightarrow> 'a \<Rightarrow> 'a list" where
  "mask_assign xs m v = map (\<lambda>(x, c). if c then v else x) (zip xs m)"

text \<open>\<open>xs[0]\<close>, which raises IndexError on an empty array.\<close>

definition first :: "'a list \<Rightarrow> error + 'a" where
  "first xs = (case xs of [] \<Rightarrow> Inl IndexError | x # _ \<Rightarrow> Inr x)"

text \<open>\<open>xs.min()\<close> and \<open>xs.max()\<close>, which raise ValueError on an empty array.\<close>

definition array_min :: "int list \<Rightarrow> error + int" where
  "array_min xs = (case xs of [] \<Rightarrow> Inl ValueError | x # ys \<Rightarrow> Inr (fold min ys x))"

definition array_max :: "int list \<Rightarrow> error + int" where
  "array_max xs = (case xs of [] \<Rightarrow> Inl ValueError | x # ys \<Rightarrow> Inr (fold max ys x))"

subsection \<open>The book and its constructor\<close>

record book =
  levels :: int
  depth :: int
  price :: "int list"
  bid_size :: "int list"
  ask_size :: "int list"

text \<open>
  \<open>_initialize_orders\<close>, with \<open>d\<close> the depth and \<open>pl\<close> the number of levels. The
  constructor fixes \<open>pl = 1000\<close>, so the count \<open>pl - 8\<close> is never negative.
\<close>

definition initialize_orders :: "int \<Rightarrow> int \<Rightarrow> int list \<times> int list" where
  "initialize_orders d pl =
     (let buy_orders = np_repeat d (pl - 8);
          buy_orders = buy_orders @ [5, 4, 4, 3, 3, 2, 2, 1];
          sell_orders = np_repeat 0 pl;
          buy_orders = buy_orders @ np_repeat 0 (pl + 1);
          sell_orders = sell_orders @ [0, 1, 2, 2, 3, 3, 4, 4, 5];
          sell_orders = sell_orders @ np_repeat d (pl - 8)
      in (buy_orders, sell_orders))"

text \<open>\<open>Book()\<close>: the freshly constructed book.\<close>

definition Book_init :: book where
  "Book_init =
     (let lv = 1000; dp = 5
      in \<lparr>levels = lv, depth = dp, price = arange (- lv) (lv + 1),
          bid_size = fst (initialize_orders dp lv),
          ask_size = snd (initialize_orders dp lv)\<rparr>)"

text \<open>The dictionary \<open>events\<close> built by \<open>_create_events\<close>.\<close>

definition events :: "nat \<rightharpoonup> string" where
  "events = map_of (zip [0..<6]
     [''market_buy'', ''market_sell'', ''limit_buy'', ''limit_sell'',
      ''cancel_buy'', ''cancel_sell''])"

subsection \<open>Queries\<close>

definition best_ask :: "book \<Rightarrow> error + int" where
  "best_ask b = array_min (mask_select (price b) (map (\<lambda>s. 0 < s) (ask_size b)))"

definition best_bid :: "book \<Rightarrow> error + int" where
  "best_bid b = array_max (mask_select (price b) (map (\<lambda>s. 0 < s) (bid_size b)))"

definition spread :: "book \<Rightarrow> error + int" where
  "spread b = bind_err (best_ask b) (\<lambda>a. bind_err (best_bid b) (\<lambda>c. Inr (a - c)))"

text \<open>\<open>xs[self.price == p][0]\<close>: the cell of the array \<open>xs\<close> at tick \<open>p\<close>.\<close>

definition at_price :: "book \<Rightarrow> int list \<Rightarrow> int \<Rightarrow> error + int" where
  "at_price b xs p = first (mask_select xs (map (\<lambda>x. x = p) (price b)))"

subsection \<open>Orders\<close>

definition market_buy :: "book \<Rightarrow> int \<Rightarrow> error + book" where
  "market_buy b qty =
     bind_err (best_ask b) (\<lambda>p.
     bind_err (at_price b (ask_size b) p) (\<lambda>x.
     bind_err (int64_sub x qty) (\<lambda>remaining_orders.
       Inr (b\<lparr>ask_size :=
            mask_assign (ask_size b) (map (\<lambda>x. x = p) (price b)) remaining_orders\<rparr>))))"

definition market_sell :: "book \<Rightarrow> int \<Rightarrow> error + book" where
  "market_sell b qty =
     bind_err (best_bid b) (\<lambda>p.
     bind_err (at_price b (bid_size b) p) (\<lambda>x.
     bind_err (int64_sub x qty) (\<lambda>remaining_orders.
       Inr (b\<lparr>bid_size :=
            mask_assign (bid_size b) (map (\<lambda>x. x = p) (price b)) remaining_orders\<rparr>))))"

definition limit_buy :: "book \<Rightarrow> int \<Rightarrow> int \<Rightarrow> error + book" where
  "limit_buy b p qty =
     bind_err (at_price b (bid_size b) p) (\<lambda>x.
     bind_err (int64_add x qty) (\<lambda>new_orders.
       Inr (b\<lparr>bid_size :=
            mask_assign (bid_size b) (map (\<lambda>x. x = p) (price b)) new_orders\<rparr>)))"

definition limit_sell :: "book \<Rightarrow> int \<Rightarrow> int \<Rightarrow> error + book" where
  "limit_sell b p qty =
     bind_err (at_price b (ask_size b) p) (\<lambda>x.
     bind_err (int64_add x qty) (\<lambda>new_orders.
       Inr (b\<lparr>ask_size :=
            mask_assign (ask_size b) (map (\<lambda>x. x = p) (price b)) new_orders\<rparr>)))"

text \<open>
  \<open>cancel_buy(price, cancelable_orders, qty)\<close>; an optional argument left at \<open>None\<close>
  is \<open>None\<close> here. Without a price the method draws \<open>self.choose(cancelable_orders)\<close>,
  which raises TypeError on \<open>None + 1\<close> and ValueError on an empty population, and then
  reads \<open>self.buy_size\<close>, an attribute that the class never defines.
\<close>

definition cancel_buy :: "book \<Rightarrow> int option \<Rightarrow> int option \<Rightarrow> int \<Rightarrow> error + book" where
  "cancel_buy b price_arg cancelable_orders qty =
     (case price_arg of
        Some p \<Rightarrow>
          bind_err (at_price b (bid_size b) p) (\<lambda>x.
          bind_err (int64_sub x qty) (\<lambda>remaining_orders.
            Inr (b\<lparr>bid_size :=
                 mask_assign (bid_size b) (map (\<lambda>x. x = p) (price b)) remaining_orders\<rparr>)))
      | None \<Rightarrow>
          (case cancelable_orders of
             None \<Rightarrow> Inl TypeError
           | Some c \<Rightarrow> if arange 1 (c + 1) = [] then Inl ValueError else Inl AttributeError))"

text \<open>
  \<open>cancel_sell\<close>: with a price it computes \<open>self.ask_size[self.price == price][0] - qty\<close>
  and then assigns into \<open>self.sell_size\<close>, an attribute that the class never defines;
  without a price it fails as \<open>cancel_buy\<close> does, on \<open>self.sell_size\<close>.
\<close>

definition cancel_sell :: "book \<Rightarrow> int option \<Rightarrow> int option \<Rightarrow> int \<Rightarrow> error + book" where
  "cancel_sell b price_arg cancelable_orders qty =
     (case price_arg of
        Some p \<Rightarrow>
          bind_err (at_price b (ask_size b) p) (\<lambda>x.
          bind_err (int64_sub x qty) (\<lambda>remaining_orders. Inl AttributeError))
      | None \<Rightarrow>
          (case cancelable_orders of
             None \<Rightarrow> Inl TypeError
           | Some c \<Rightarrow> if arange 1 (c + 1) = [] then Inl ValueError else Inl AttributeError))"

subsection \<open>Positions and the shape of the book\<close>

text \<open>\<open>np.where(self.price == p)[0][0] + 1\<close>.\<close>

definition position_of :: "book \<Rightarrow> int \<Rightarrow> error + int" where
  "position_of b p =
     bind_err (first (mask_select (map int [0..<length (price b)]) (map (\<lambda>x. x = p) (price b))))
       (\<lambda>i. Inr (i + 1))"

definition bid_position :: "book \<Rightarrow> error + int" where
  "bid_position b = bind_err (best_bid b) (position_of b)"

definition ask_position :: "book \<Rightarrow> error + int" where
  "ask_position b = bind_err (best_ask b) (position_of b)"

definition mid_position :: "book \<Rightarrow> error + int" where
  "mid_position b =
     bind_err (bid_position b) (\<lambda>bp. bind_err (ask_position b) (\<lambda>ap. Inr ((bp + ap) div 2)))"

text \<open>
  \<open>xs[idx]\<close> for an array of indices: a negative index counts from the end, an index
  outside the array raises IndexError.
\<close>

definition take_indices :: "int list \<Rightarrow> int list \<Rightarrow> error + int list" where
  "take_indices xs idx =
     (let n = int (length xs)
      in if \<forall>i \<in> set idx. - n \<le> i \<and> i < n
         then Inr (map (\<lambda>i. xs ! nat (if i < 0 then i + n else i)) idx)
         else Inl IndexError)"

definition book_shape :: "book \<Rightarrow> int \<Rightarrow> error + int list" where
  "book_shape b band =
     bind_err (mid_position b) (\<lambda>m.
     bind_err (take_indices (bid_size b) (map (\<lambda>k. m + k) (arange (- band - 1) 0))) (\<lambda>buy_qty.
     bind_err (mid_position b) (\<lambda>m'.
     bind_err (take_indices (ask_size b) (map (\<lambda>k. m' + k) (arange 0 band))) (\<lambda>sell_qty.
       Inr (buy_qty @ sell_qty)))))"

subsection \<open>Random draws\<close>

text \<open>
  The truth value that Python takes of a numpy array: that of its entry when the array
  has one entry, and ValueError when it has two or more. For an array without entries
  numpy 2.2 and later raise ValueError as well.
\<close>

definition array_truth :: "real list \<Rightarrow> error + bool" where
  "array_truth w = (case w of [x] \<Rightarrow> Inr (x \<noteq> 0) | _ \<Rightarrow> Inl ValueError)"

text \<open>
  The method \<open>choose\<close> (\<open>choose_level\<close> here, since \<open>choose\<close> is the binomial coefficient).
  The values that numpy's sampler returns are arguments of the model: \<open>q\<close> is the value
  that \<open>np.random.choice(np.arange(1, price_level + 1), 1, ...)[0]\<close> returned. It is an
  element of the population; numpy raises ValueError on an empty population, and a \<open>q\<close>
  outside the population, which the sampler cannot return, is mapped to the same
  error. When \<open>prob\<close> is given the source passes it as the third positional argument of
  \<open>np.random.choice\<close>, which is \<open>replace\<close>, and numpy takes its truth value: the call
  raises ValueError for a \<open>prob\<close> of two or more entries, and for a \<open>prob\<close> of one entry
  it draws one element with or without replacement, uniformly in both cases. The
  parameter \<open>p\<close> keeps its default, so \<open>prob\<close> never reaches the sampler as a weight.
\<close>

definition choose_level :: "int \<Rightarrow> real list option \<Rightarrow> int \<Rightarrow> error + int" where
  "choose_level price_level prob q =
     (let population = arange 1 (price_level + 1)
      in if population = [] then Inl ValueError
         else case prob of
                None \<Rightarrow> if q \<in> set population then Inr q else Inl ValueError
              | Some w \<Rightarrow>
                  bind_err (array_truth w) (\<lambda>replace.
                    if q \<in> set population then Inr q else Inl ValueError))"

text \<open>
  \<open>np.random.choice(n, 1, p=pevent)[0]\<close>, with \<open>ev\<close> the index that the sampler returned.
  numpy raises ValueError unless \<open>pevent\<close> has \<open>n\<close> non-negative entries that sum to 1;
  an index returned has positive weight. Floating-point rates are real numbers here.
\<close>

definition random_choice :: "nat \<Rightarrow> real list \<Rightarrow> nat \<Rightarrow> error + nat" where
  "random_choice n pevent ev =
     (if length pevent \<noteq> n \<or> (\<exists>x \<in> set pevent. x < 0) \<or> sum_list pevent \<noteq> 1
      then Inl ValueError
      else if ev < n \<and> 0 < pevent ! ev then Inr ev else Inl ValueError)"

subsection \<open>The event models\<close>

text \<open>
  The constructor sets the attributes \<open>_levels\<close>, \<open>_depth\<close>, \<open>price\<close>, \<open>bid_size\<close>,
  \<open>ask_size\<close> and \<open>events\<close>, and the class has no \<open>__getattr__\<close>: reading
  \<open>self.buy_size\<close> or \<open>self.sell_size\<close> raises AttributeError.
\<close>

definition buy_size :: "book \<Rightarrow> error + int list" where
  "buy_size b = Inl AttributeError"

definition sell_size :: "book \<Rightarrow> error + int list" where
  "sell_size b = Inl AttributeError"

text \<open>
  The dispatch of \<open>sfgk_model\<close> on the event drawn. The two cancel branches call
  \<open>cancel_buy\<close> and \<open>cancel_sell\<close> with the keyword \<open>cancellable_orders\<close>, which is not a
  parameter of either method: Python raises TypeError.
\<close>

definition sfgk_dispatch :: "book \<Rightarrow> string \<Rightarrow> int \<Rightarrow> int \<Rightarrow> int \<Rightarrow> int \<Rightarrow> error + book" where
  "sfgk_dispatch b market_event L q net_buys net_sells =
     (if market_event = ''market_buy'' then market_buy b 1
      else if market_event = ''market_sell'' then market_sell b 1
      else if market_event = ''limit_buy'' then
        bind_err (choose_level L None q) (\<lambda>q.
        bind_err (best_ask b) (\<lambda>a. limit_buy b (a - q) 1))
      else if market_event = ''limit_sell'' then
        bind_err (choose_level L None q) (\<lambda>q.
        bind_err (best_bid b) (\<lambda>c. limit_sell b (c + q) 1))
      else if market_event = ''cancel_buy'' then Inl TypeError
      else if market_event = ''cancel_sell'' then Inl TypeError
      else Inr b)"

definition sfgk_model ::
  "book \<Rightarrow> real \<Rightarrow> real \<Rightarrow> real \<Rightarrow> int \<Rightarrow> nat \<Rightarrow> int \<Rightarrow> error + book" where
  "sfgk_model b mu lamda theta L ev q =
     bind_err (buy_size b) (\<lambda>bs.
     bind_err (best_ask b) (\<lambda>a.
       let net_buys = sum_list (mask_select bs (map (\<lambda>p. a - L \<le> p) (price b)))
       in
     bind_err (sell_size b) (\<lambda>ss.
     bind_err (best_bid b) (\<lambda>c.
       let net_sells = sum_list (mask_select ss (map (\<lambda>p. p \<le> c + L) (price b)));
           cum_rate = mu + 2 * of_int L * lamda + of_int net_buys * theta
                      + of_int net_sells * theta;
           pevent = map (\<lambda>x. x / cum_rate)
                      [0.5 * mu, 0.5 * mu, of_int L * lamda, of_int L * lamda,
                       of_int net_buys * theta, of_int net_sells * theta]
       in
     bind_err (random_choice 6 pevent ev) (\<lambda>i.
       case events i of
         None \<Rightarrow> Inl KeyError
       | Some market_event \<Rightarrow> sfgk_dispatch b market_event L q net_buys net_sells)))))"

text \<open>Python slices \<open>xs[:k]\<close> and \<open>xs[k:]\<close>, and \<open>xs[k]\<close>; a negative \<open>k\<close> counts from the end.\<close>

definition slice_to :: "'a list \<Rightarrow> int \<Rightarrow> 'a list" where
  "slice_to xs k = (if 0 \<le> k then take (nat k) xs else take (length xs - nat (- k)) xs)"

definition slice_from :: "'a list \<Rightarrow> int \<Rightarrow> 'a list" where
  "slice_from xs k = (if 0 \<le> k then drop (nat k) xs else drop (length xs - nat (- k)) xs)"

definition index :: "'a list \<Rightarrow> int \<Rightarrow> error + 'a" where
  "index xs k =
     (let n = int (length xs); j = (if k < 0 then n + k else k)
      in if 0 \<le> j \<and> j < n then Inr (xs ! nat j) else Inl IndexError)"

text \<open>
  \<open>np.dot\<close> of two one-dimensional arrays, the elementwise sum and product of two
  arrays (numpy broadcasts an array of length 1), which raise ValueError when the
  lengths do not fit.
\<close>

definition np_dot :: "real list \<Rightarrow> int list \<Rightarrow> error + real" where
  "np_dot xs ys =
     (if length xs = length ys then Inr (sum_list (map2 (\<lambda>x y. x * of_int y) xs ys))
      else Inl ValueError)"

definition broadcast :: "('a \<Rightarrow> 'b \<Rightarrow> 'c) \<Rightarrow> 'a list \<Rightarrow> 'b list \<Rightarrow> error + 'c list" where
  "broadcast f xs ys =
     (if length xs = length ys then Inr (map2 f xs ys)
      else if length xs = 1 then Inr (map (f (hd xs)) ys)
      else if length ys = 1 then Inr (map (\<lambda>x. f x (hd ys)) xs)
      else Inl ValueError)"

text \<open>The dispatch of \<open>cst_model\<close> on the event drawn.\<close>

definition cst_dispatch ::
  "book \<Rightarrow> string \<Rightarrow> real list \<Rightarrow> real list \<Rightarrow> int list \<Rightarrow> int list \<Rightarrow> real \<Rightarrow> real \<Rightarrow> real
     \<Rightarrow> int \<Rightarrow> int \<Rightarrow> error + book" where
  "cst_dispatch b market_event lamdas thetas cb cs cum_lam cb_rates cs_rates L q =
     (if market_event = ''market_buy'' then market_buy b 1
      else if market_event = ''market_sell'' then market_sell b 1
      else if market_event = ''limit_buy'' then
        (let pevent = map (\<lambda>x. x / cum_lam) lamdas
         in bind_err (choose_level L (Some pevent) q) (\<lambda>q.
            bind_err (best_ask b) (\<lambda>a. limit_buy b (a - q) 1)))
      else if market_event = ''limit_sell'' then
        (let pevent = map (\<lambda>x. x / cum_lam) lamdas
         in bind_err (choose_level L (Some pevent) q) (\<lambda>q.
            bind_err (best_bid b) (\<lambda>c. limit_sell b (c + q) 1)))
      else if market_event = ''cancel_buy'' then
        bind_err (broadcast (\<lambda>x y. x * of_int y) thetas cb) (\<lambda>w.
          let pevent = map (\<lambda>x. x / cb_rates) w
          in bind_err (choose_level L (Some pevent) q) (\<lambda>q.
             bind_err (best_ask b) (\<lambda>a. cancel_buy b (Some (a - q)) None 1)))
      else if market_event = ''cancel_sell'' then
        bind_err (broadcast (\<lambda>x y. x * of_int y) thetas cs) (\<lambda>w.
          let pevent = map (\<lambda>x. x / cs_rates) w
          in bind_err (choose_level L (Some pevent) q) (\<lambda>q.
             bind_err (best_bid b) (\<lambda>c. cancel_sell b (Some (c + q)) None 1)))
      else Inr b)"

definition cst_model ::
  "book \<Rightarrow> real \<Rightarrow> real list \<Rightarrow> real list \<Rightarrow> int \<Rightarrow> nat \<Rightarrow> int \<Rightarrow> error + book" where
  "cst_model b mu lamdas thetas L ev q =
     bind_err (buy_size b) (\<lambda>bs.
     bind_err (best_ask b) (\<lambda>a.
       let cb = rev (slice_to (mask_select bs (map (\<lambda>p. a - L \<le> p) (price b))) L)
       in
     bind_err (sell_size b) (\<lambda>ss.
     bind_err (best_bid b) (\<lambda>c.
       let cs = slice_from (mask_select ss (map (\<lambda>p. p \<le> c + L) (price b))) (- L);
           nb = sum_list cb;
           ns = sum_list cs
       in
     bind_err (np_dot thetas cb) (\<lambda>cb_rates.
     bind_err (np_dot thetas cs) (\<lambda>cs_rates.
       let cum_lam = sum_list lamdas;
           cum_rate = 2 * mu + 2 * cum_lam + cb_rates + cs_rates;
           pevent = map (\<lambda>x. x / cum_rate) [mu, mu, cum_lam, cum_lam, cb_rates, cs_rates]
       in
     bind_err (random_choice 6 pevent ev) (\<lambda>i.
       case events i of
         None \<Rightarrow> Inl KeyError
       | Some market_event \<Rightarrow>
           cst_dispatch b market_event lamdas thetas cb cs cum_lam cb_rates cs_rates L q)))))))"

subsection \<open>Well-formed books\<close>

text \<open>
  The constructor builds \<open>price\<close> as \<open>np.arange(-levels, levels + 1)\<close> and both size
  arrays with the same length; no method assigns to \<open>price\<close> or changes a length. Every
  state of a \<open>Book\<close> is therefore well formed in the following sense.
\<close>

definition wf_book :: "book \<Rightarrow> bool" where
  "wf_book b \<longleftrightarrow> 0 \<le> levels b \<and> price b = arange (- levels b) (levels b + 1)
     \<and> length (bid_size b) = length (price b) \<and> length (ask_size b) = length (price b)"

subsection \<open>Notions used in the statements\<close>

text \<open>
  A tick \<open>t\<close> carries an ask (a bid) when some cell of the ladder at price \<open>t\<close> holds a
  positive ask (bid) size; the cells of a book are 64-bit when each lies in the range of
  a 64-bit signed integer, as the cells of the numpy arrays do; a book is non-negative
  when no cell of either side is negative.
\<close>

definition has_ask :: "book \<Rightarrow> int \<Rightarrow> bool" where
  "has_ask b t \<longleftrightarrow> (\<exists>i < length (price b). price b ! i = t \<and> 0 < ask_size b ! i)"

definition has_bid :: "book \<Rightarrow> int \<Rightarrow> bool" where
  "has_bid b t \<longleftrightarrow> (\<exists>i < length (price b). price b ! i = t \<and> 0 < bid_size b ! i)"

definition int64_cells :: "book \<Rightarrow> bool" where
  "int64_cells b \<longleftrightarrow> (\<forall>x \<in> set (bid_size b). int64 x) \<and> (\<forall>x \<in> set (ask_size b). int64 x)"

definition nonneg :: "book \<Rightarrow> bool" where
  "nonneg b \<longleftrightarrow> (\<forall>x \<in> set (bid_size b). 0 \<le> x) \<and> (\<forall>x \<in> set (ask_size b). 0 \<le> x)"

text \<open>
  A book is uncrossed when every tick that carries a bid lies below every tick that
  carries an ask. The states reached by the event models are those obtained from the
  freshly constructed book by the operations that \<open>sfgk_model\<close> and \<open>cst_model\<close> dispatch,
  for any event name, any window and any draw; a call that raises leaves the book as
  it was and adds no state.
\<close>

definition uncrossed :: "book \<Rightarrow> bool" where
  "uncrossed b \<longleftrightarrow> (\<forall>s t. has_bid b s \<and> has_ask b t \<longrightarrow> s < t)"

inductive reachable :: "book \<Rightarrow> bool" where
  initial: "reachable Book_init"
| sfgk_event:
    "reachable b \<Longrightarrow> sfgk_dispatch b market_event L q net_buys net_sells = Inr b'
       \<Longrightarrow> reachable b'"
| cst_event:
    "reachable b \<Longrightarrow>
       cst_dispatch b market_event lamdas thetas cb cs cum_lam cb_rates cs_rates L q = Inr b'
       \<Longrightarrow> reachable b'"

subsection \<open>The simulation drivers\<close>

text \<open>
  The drivers compute in numpy's 64-bit floating point. Its operations are parameters
  of the model: \<open>fdiv x m\<close> is the floating-point quotient \<open>x / m\<close> of a cell and a Python
  integer (which does not raise for \<open>m = 0\<close>), \<open>fadd\<close> the floating-point sum and \<open>fhalf\<close>
  the product with \<open>0.5\<close>.
\<close>

record 'f float_ops =
  fdiv :: "int \<Rightarrow> int \<Rightarrow> 'f"
  fadd :: "'f \<Rightarrow> 'f \<Rightarrow> 'f"
  fhalf :: "'f \<Rightarrow> 'f"

text \<open>
  Each event of a run consumes one pair of draws, the index of the event and the
  distance; \<open>rnd k\<close> is the pair that the event number \<open>k\<close> of the run receives. The two
  drivers share their loops, which are written once here, for the event routine
  \<open>model\<close>. \<open>run_events n\<close> is \<open>for _ in range(n): self.model(...)\<close>.
\<close>

type_synonym draw = "nat \<times> int"

fun run_events ::
  "nat \<Rightarrow> (book \<Rightarrow> draw \<Rightarrow> error + book) \<Rightarrow> (nat \<Rightarrow> draw) \<Rightarrow> nat \<Rightarrow> book \<Rightarrow> error + book" where
  "run_events 0 model rnd k b = Inr b"
| "run_events (Suc n) model rnd k b =
     bind_err (model b (rnd k)) (run_events n model rnd (Suc k))"

text \<open>\<open>shape / max_events\<close>, cell by cell.\<close>

definition shape_over :: "'f float_ops \<Rightarrow> int list \<Rightarrow> int \<Rightarrow> 'f list" where
  "shape_over fl sh max_events = map (\<lambda>x. fdiv fl x max_events) sh"

text \<open>
  The second loop, \<open>for _ in range(1, max_events)\<close>: an event, then
  \<open>avg += self.book_shape(L) / max_events\<close>.
\<close>

fun average_loop ::
  "'f float_ops \<Rightarrow> nat \<Rightarrow> (book \<Rightarrow> draw \<Rightarrow> error + book) \<Rightarrow> (nat \<Rightarrow> draw) \<Rightarrow> nat \<Rightarrow> int \<Rightarrow> int
     \<Rightarrow> 'f list \<Rightarrow> book \<Rightarrow> error + 'f list \<times> book" where
  "average_loop fl 0 model rnd k L max_events avg b = Inr (avg, b)"
| "average_loop fl (Suc n) model rnd k L max_events avg b =
     bind_err (model b (rnd k)) (\<lambda>b'.
     bind_err (book_shape b' L) (\<lambda>sh.
     bind_err (broadcast (fadd fl) avg (shape_over fl sh max_events)) (\<lambda>avg'.
       average_loop fl n model rnd (Suc k) L max_events avg' b')))"

text \<open>
  The body shared by the two drivers: 1000 events, a first sample, and the second loop.
  It returns the average and the book as the run leaves it.
\<close>

definition average_shape ::
  "'f float_ops \<Rightarrow> (book \<Rightarrow> draw \<Rightarrow> error + book) \<Rightarrow> (nat \<Rightarrow> draw) \<Rightarrow> book \<Rightarrow> int \<Rightarrow> int
     \<Rightarrow> error + 'f list \<times> book" where
  "average_shape fl model rnd b L max_events =
     bind_err (run_events 1000 model rnd 0 b) (\<lambda>b1.
     bind_err (book_shape b1 L) (\<lambda>sh.
       let avg_book_shape = shape_over fl sh max_events
       in average_loop fl (nat (max_events - 1)) model rnd 1000 L max_events
            avg_book_shape b1))"

definition sfgk_simulate ::
  "'f float_ops \<Rightarrow> book \<Rightarrow> real \<Rightarrow> real \<Rightarrow> real \<Rightarrow> int \<Rightarrow> int \<Rightarrow> (nat \<Rightarrow> draw)
     \<Rightarrow> error + 'f list \<times> book" where
  "sfgk_simulate fl b mu lamda theta L max_events rnd =
     average_shape fl (\<lambda>b d. sfgk_model b mu lamda theta L (fst d) (snd d)) rnd b L max_events"

text \<open>
  The last two statements of \<open>cst_simulate\<close>:
  \<open>ans = (avg[:L][::-1] + avg[L+1:]) * 0.5\<close> and \<open>ans = np.append(avg[L], ans)\<close>.
\<close>

definition symmetrize :: "'f float_ops \<Rightarrow> 'f list \<Rightarrow> int \<Rightarrow> error + 'f list" where
  "symmetrize fl avgBookShape L =
     bind_err (broadcast (fadd fl) (rev (slice_to avgBookShape L))
                 (slice_from avgBookShape (L + 1)))
       (\<lambda>s. let ans = map (fhalf fl) s
            in bind_err (index avgBookShape L) (\<lambda>a0. Inr (a0 # ans)))"

definition cst_simulate ::
  "'f float_ops \<Rightarrow> book \<Rightarrow> real \<Rightarrow> real list \<Rightarrow> real list \<Rightarrow> int \<Rightarrow> int \<Rightarrow> (nat \<Rightarrow> draw)
     \<Rightarrow> error + 'f list \<times> book" where
  "cst_simulate fl b mu lamdas thetas L numEvents rnd =
     bind_err (average_shape fl (\<lambda>b d. cst_model b mu lamdas thetas L (fst d) (snd d))
                 rnd b L numEvents) (\<lambda>(avgBookShape, b').
     bind_err (symmetrize fl avgBookShape L) (\<lambda>ans. Inr (ans, b')))"

section \<open>Properties\<close>

subsection \<open>Masks, minima and ticks\<close>

lemma length_mask_assign: "length m = length xs \<Longrightarrow> length (mask_assign xs m v) = length xs"
  by (simp add: mask_assign_def)

lemma nth_mask_assign:
  "length m = length xs \<Longrightarrow> i < length xs \<Longrightarrow>
     mask_assign xs m v ! i = (if m ! i then v else xs ! i)"
  by (simp add: mask_assign_def)

lemma mask_assign_eq_update:
  assumes "distinct ps" "length xs = length ps" "i < length ps"
  shows "mask_assign xs (map (\<lambda>x. x = ps ! i) ps) v = xs[i := v]"
proof (rule nth_equalityI)
  show "length (mask_assign xs (map (\<lambda>x. x = ps ! i) ps) v) = length (xs[i := v])"
    using assms by (simp add: length_mask_assign)
next
  fix j assume "j < length (mask_assign xs (map (\<lambda>x. x = ps ! i) ps) v)"
  then have j: "j < length ps" using assms by (simp add: length_mask_assign)
  then show "mask_assign xs (map (\<lambda>x. x = ps ! i) ps) v ! j = xs[i := v] ! j"
    using assms by (auto simp: nth_mask_assign nth_list_update nth_eq_iff_index_eq)
qed

lemma mask_select_none:
  "length xs = length ps \<Longrightarrow> p \<notin> set ps \<Longrightarrow> mask_select xs (map (\<lambda>x. x = p) ps) = []"
  by (induction xs ps rule: list_induct2) (auto simp: mask_select_def)

lemma mask_select_single:
  "length xs = length ps \<Longrightarrow> distinct ps \<Longrightarrow> i < length ps \<Longrightarrow>
     mask_select xs (map (\<lambda>x. x = ps ! i) ps) = [xs ! i]"
proof (induction xs ps arbitrary: i rule: list_induct2)
  case Nil
  then show ?case by simp
next
  case (Cons x xs p ps)
  show ?case
  proof (cases i)
    case 0
    have "mask_select xs (map (\<lambda>x. x = p) ps) = []"
      using Cons.hyps Cons.prems by (simp add: mask_select_none)
    then show ?thesis using 0 by (simp add: mask_select_def)
  next
    case (Suc j)
    then have j: "j < length ps" using Cons.prems by simp
    then have "p \<noteq> ps ! j" using Cons.prems by auto
    moreover have "mask_select xs (map (\<lambda>x. x = ps ! j) ps) = [xs ! j]"
      using Cons.IH j Cons.prems by simp
    ultimately show ?thesis using Suc by (simp add: mask_select_def)
  qed
qed

lemma set_mask_select:
  "length m = length xs \<Longrightarrow> set (mask_select xs m) = {xs ! i | i. i < length xs \<and> m ! i}"
  by (force simp: mask_select_def set_zip image_iff)

lemma fold_min_Min: "fold min ys x = Min (insert x (set ys))"
  using Min.set_eq_fold [of x ys] by simp

lemma fold_max_Max: "fold max ys x = Max (insert x (set ys))"
  using Max.set_eq_fold [of x ys] by simp

lemma array_min_Inr:
  "array_min xs = Inr m \<longleftrightarrow> xs \<noteq> [] \<and> m = Min (set xs)"
  by (cases xs) (auto simp: array_min_def fold_min_Min)

lemma array_max_Inr:
  "array_max xs = Inr m \<longleftrightarrow> xs \<noteq> [] \<and> m = Max (set xs)"
  by (cases xs) (auto simp: array_max_def fold_max_Max)

lemma array_min_Inl: "array_min xs = Inl e \<longleftrightarrow> xs = [] \<and> e = ValueError"
  by (cases xs) (auto simp: array_min_def)

lemma array_max_Inl: "array_max xs = Inl e \<longleftrightarrow> xs = [] \<and> e = ValueError"
  by (cases xs) (auto simp: array_max_def)

lemma price_wf: "wf_book b \<Longrightarrow> price b = [- levels b..levels b]"
  by (simp add: wf_book_def arange_def)

lemma length_price_wf: "wf_book b \<Longrightarrow> length (price b) = nat (2 * levels b + 1)"
  by (simp add: wf_book_def arange_def)

lemma nth_price_wf:
  "wf_book b \<Longrightarrow> i < length (price b) \<Longrightarrow> price b ! i = int i - levels b"
  by (simp add: wf_book_def arange_def)

lemma distinct_price_wf: "wf_book b \<Longrightarrow> distinct (price b)"
  by (simp add: wf_book_def arange_def)

lemma at_price_index:
  assumes "distinct (price b)" "length xs = length (price b)" "i < length (price b)"
  shows "at_price b xs (price b ! i) = Inr (xs ! i)"
  using assms by (simp add: at_price_def mask_select_single first_def)

lemma at_price_outside:
  assumes "length xs = length (price b)" "p \<notin> set (price b)"
  shows "at_price b xs p = Inl IndexError"
  using assms by (simp add: at_price_def mask_select_none first_def)

subsection \<open>The freshly constructed book\<close>

lemma set_price_wf: "wf_book b \<Longrightarrow> set (price b) = {- levels b..levels b}"
  by (simp add: price_wf)

lemma tick_index:
  assumes "wf_book b" "- levels b \<le> t" "t \<le> levels b"
  shows "nat (t + levels b) < length (price b)" "price b ! nat (t + levels b) = t"
proof -
  show i: "nat (t + levels b) < length (price b)"
    using assms by (simp add: length_price_wf)
  show "price b ! nat (t + levels b) = t"
    using nth_price_wf [OF assms(1) i] assms by simp
qed

lemma at_price_tick:
  assumes "wf_book b" "length xs = length (price b)" "- levels b \<le> t" "t \<le> levels b"
  shows "at_price b xs t = Inr (xs ! nat (t + levels b))"
  using at_price_index [OF distinct_price_wf [OF assms(1)] assms(2) tick_index(1) [OF assms(1,3,4)]]
    tick_index(2) [OF assms(1,3,4)] by simp

lemma levels_init: "levels Book_init = 1000"
  by (simp add: Book_init_def)

lemma price_init: "price Book_init = [-1000..1000]"
  by (simp add: Book_init_def arange_def)

lemma bid_size_init:
  "bid_size Book_init = replicate 992 5 @ [5, 4, 4, 3, 3, 2, 2, 1] @ replicate 1001 0"
  by (simp add: Book_init_def initialize_orders_def np_repeat_def)

lemma ask_size_init:
  "ask_size Book_init = replicate 1000 0 @ [0, 1, 2, 2, 3, 3, 4, 4, 5] @ replicate 992 5"
  by (simp add: Book_init_def initialize_orders_def np_repeat_def)

lemma wf_book_init: "wf_book Book_init"
  by (simp add: wf_book_def levels_init price_init bid_size_init ask_size_init arange_def)

lemma bid_at_init:
  assumes "-1000 \<le> t" "t \<le> 1000"
  shows "at_price Book_init (bid_size Book_init) t = Inr (bid_size Book_init ! nat (t + 1000))"
  using at_price_tick [OF wf_book_init, of "bid_size Book_init" t] assms wf_book_init
  by (simp add: levels_init wf_book_def)

lemma ask_at_init:
  assumes "-1000 \<le> t" "t \<le> 1000"
  shows "at_price Book_init (ask_size Book_init) t = Inr (ask_size Book_init ! nat (t + 1000))"
  using at_price_tick [OF wf_book_init, of "ask_size Book_init" t] assms wf_book_init
  by (simp add: levels_init wf_book_def)

lemma nth_bid_init:
  assumes "i < 2001"
  shows "bid_size Book_init ! i =
    (if i < 993 then 5 else if i < 995 then 4 else if i < 997 then 3 else if i < 999 then 2
     else if i < 1000 then 1 else 0)"
proof -
  consider "i < 992" | "i = 992" | "i = 993" | "i = 994" | "i = 995" | "i = 996" | "i = 997"
    | "i = 998" | "i = 999" | "1000 \<le> i"
    by linarith
  then show ?thesis
    using assms by cases (simp_all add: bid_size_init nth_append)
qed

lemma nth_ask_init:
  assumes "i < 2001"
  shows "ask_size Book_init ! i =
    (if i < 1001 then 0 else if i < 1002 then 1 else if i < 1004 then 2 else if i < 1006 then 3
     else if i < 1008 then 4 else 5)"
proof -
  consider "i < 1000" | "i = 1000" | "i = 1001" | "i = 1002" | "i = 1003" | "i = 1004"
    | "i = 1005" | "i = 1006" | "i = 1007" | "i = 1008" | "1009 \<le> i"
    by linarith
  then show ?thesis
    using assms by cases (simp_all add: ask_size_init nth_append)
qed

lemma bid_tick_init:
  assumes "-1000 \<le> t" "t \<le> 1000"
  shows "at_price Book_init (bid_size Book_init) t =
    Inr (if t < -7 then 5 else if t < -5 then 4 else if t < -3 then 3 else if t < -1 then 2
         else if t < 0 then 1 else 0)"
proof -
  have "nat (t + 1000) < 2001" using assms by simp
  then show ?thesis
    using assms by (simp add: bid_at_init nth_bid_init) linarith
qed

lemma ask_tick_init:
  assumes "-1000 \<le> t" "t \<le> 1000"
  shows "at_price Book_init (ask_size Book_init) t =
    Inr (if t < 1 then 0 else if t < 2 then 1 else if t < 4 then 2 else if t < 6 then 3
         else if t < 8 then 4 else 5)"
proof -
  have "nat (t + 1000) < 2001" using assms by simp
  then show ?thesis
    using assms by (simp add: ask_at_init nth_ask_init) linarith
qed

text \<open>
  Claim C4. In the freshly constructed book (1000 levels, depth 5) the ask side is 0 at
  every tick below 0 and the bid side is 0 at every tick from 0 up; the ask size is 0 at
  tick 0, 1 at tick 1 and 5 at tick 8, the bid size is 1 at tick -1 and 5 at tick -8;
  and each side holds the depth 5 at every tick more than 8 ticks from 0 on its own
  side.
\<close>

theorem initial_ladder:
  "(\<forall>t. -1000 \<le> t \<and> t < 0 \<longrightarrow> at_price Book_init (ask_size Book_init) t = Inr 0)
   \<and> (\<forall>t. 0 \<le> t \<and> t \<le> 1000 \<longrightarrow> at_price Book_init (bid_size Book_init) t = Inr 0)
   \<and> at_price Book_init (ask_size Book_init) 0 = Inr 0
   \<and> at_price Book_init (ask_size Book_init) 1 = Inr 1
   \<and> at_price Book_init (ask_size Book_init) 8 = Inr 5
   \<and> at_price Book_init (bid_size Book_init) (-1) = Inr 1
   \<and> at_price Book_init (bid_size Book_init) (-8) = Inr 5
   \<and> (\<forall>t. 8 < t \<and> t \<le> 1000 \<longrightarrow> at_price Book_init (ask_size Book_init) t = Inr 5)
   \<and> (\<forall>t. -1000 \<le> t \<and> t < -8 \<longrightarrow> at_price Book_init (bid_size Book_init) t = Inr 5)"
  by (simp add: bid_tick_init ask_tick_init)

theorem initial_ladder_witness:
  "(-1000 \<le> (-500::int) \<and> (-500::int) < 0)
   \<and> at_price Book_init (ask_size Book_init) (-500) = Inr 0
   \<and> (0 \<le> (700::int) \<and> (700::int) \<le> 1000)
   \<and> at_price Book_init (bid_size Book_init) 700 = Inr 0
   \<and> ((8::int) < 9 \<and> (9::int) \<le> 1000)
   \<and> at_price Book_init (ask_size Book_init) 9 = Inr 5
   \<and> (-1000 \<le> (-9::int) \<and> (-9::int) < -8)
   \<and> at_price Book_init (bid_size Book_init) (-9) = Inr 5"
  using initial_ladder by simp

subsection \<open>Best quotes\<close>

lemma bind_err_Inr [simp]: "bind_err (Inr x) f = f x"
  by (simp add: bind_err_def)

lemma bind_err_Inl [simp]: "bind_err (Inl e) f = Inl e"
  by (simp add: bind_err_def)

lemma bind_err_eq_Inr:
  "bind_err r f = Inr y \<longleftrightarrow> (\<exists>x. r = Inr x \<and> f x = Inr y)"
  by (cases r) simp_all

lemma ask_ticks_set:
  assumes "length (ask_size b) = length (price b)"
  shows "set (mask_select (price b) (map (\<lambda>s. 0 < s) (ask_size b))) = {t. has_ask b t}"
  using assms by (auto simp: set_mask_select has_ask_def)

lemma bid_ticks_set:
  assumes "length (bid_size b) = length (price b)"
  shows "set (mask_select (price b) (map (\<lambda>s. 0 < s) (bid_size b))) = {t. has_bid b t}"
  using assms by (auto simp: set_mask_select has_bid_def)

lemma finite_has_ask: "finite {t. has_ask b t}"
proof -
  have "{t. has_ask b t} \<subseteq> set (price b)" by (auto simp: has_ask_def)
  then show ?thesis by (rule finite_subset) simp
qed

lemma finite_has_bid: "finite {t. has_bid b t}"
proof -
  have "{t. has_bid b t} \<subseteq> set (price b)" by (auto simp: has_bid_def)
  then show ?thesis by (rule finite_subset) simp
qed

lemma best_ask_Inr_iff:
  assumes "length (ask_size b) = length (price b)"
  shows "best_ask b = Inr a \<longleftrightarrow> has_ask b a \<and> (\<forall>t. has_ask b t \<longrightarrow> a \<le> t)"
proof -
  let ?S = "{t. has_ask b t}"
  have "best_ask b = Inr a \<longleftrightarrow> ?S \<noteq> {} \<and> a = Min ?S"
    unfolding best_ask_def array_min_Inr ask_ticks_set [OF assms, symmetric] by auto
  also have "\<dots> \<longleftrightarrow> a \<in> ?S \<and> (\<forall>t \<in> ?S. a \<le> t)"
    using finite_has_ask [of b] by (metis Min_eqI Min_in Min_le empty_iff)
  finally show ?thesis by simp
qed

lemma best_bid_Inr_iff:
  assumes "length (bid_size b) = length (price b)"
  shows "best_bid b = Inr c \<longleftrightarrow> has_bid b c \<and> (\<forall>t. has_bid b t \<longrightarrow> t \<le> c)"
proof -
  let ?S = "{t. has_bid b t}"
  have "best_bid b = Inr c \<longleftrightarrow> ?S \<noteq> {} \<and> c = Max ?S"
    unfolding best_bid_def array_max_Inr bid_ticks_set [OF assms, symmetric] by auto
  also have "\<dots> \<longleftrightarrow> c \<in> ?S \<and> (\<forall>t \<in> ?S. t \<le> c)"
    using finite_has_bid [of b] by (metis Max_eqI Max_in Max_ge empty_iff)
  finally show ?thesis by simp
qed

lemma best_ask_Inl_iff:
  assumes "length (ask_size b) = length (price b)"
  shows "best_ask b = Inl e \<longleftrightarrow> e = ValueError \<and> (\<forall>t. \<not> has_ask b t)"
  unfolding best_ask_def array_min_Inl set_empty [symmetric] ask_ticks_set [OF assms] by auto

lemma best_bid_Inl_iff:
  assumes "length (bid_size b) = length (price b)"
  shows "best_bid b = Inl e \<longleftrightarrow> e = ValueError \<and> (\<forall>t. \<not> has_bid b t)"
  unfolding best_bid_def array_max_Inl set_empty [symmetric] bid_ticks_set [OF assms] by auto

lemma best_ask_exists:
  assumes "length (ask_size b) = length (price b)" "has_ask b t"
  shows "\<exists>a. best_ask b = Inr a"
proof (cases "best_ask b")
  case (Inl e)
  then show ?thesis using best_ask_Inl_iff [OF assms(1)] assms(2) by blast
next
  case (Inr a)
  then show ?thesis by blast
qed

lemma best_bid_exists:
  assumes "length (bid_size b) = length (price b)" "has_bid b t"
  shows "\<exists>c. best_bid b = Inr c"
proof (cases "best_bid b")
  case (Inl e)
  then show ?thesis using best_bid_Inl_iff [OF assms(1)] assms(2) by blast
next
  case (Inr c)
  then show ?thesis by blast
qed

lemma has_ask_wf:
  assumes "wf_book b"
  shows "has_ask b t \<longleftrightarrow> - levels b \<le> t \<and> t \<le> levels b \<and> 0 < ask_size b ! nat (t + levels b)"
proof
  assume "has_ask b t"
  then obtain i where i: "i < length (price b)" "price b ! i = t" "0 < ask_size b ! i"
    by (auto simp: has_ask_def)
  have "t = int i - levels b" using nth_price_wf [OF assms i(1)] i(2) by simp
  moreover have "i < nat (2 * levels b + 1)" using i(1) length_price_wf [OF assms] by simp
  ultimately show "- levels b \<le> t \<and> t \<le> levels b \<and> 0 < ask_size b ! nat (t + levels b)"
    using i(3) by auto
next
  assume r: "- levels b \<le> t \<and> t \<le> levels b \<and> 0 < ask_size b ! nat (t + levels b)"
  then show "has_ask b t"
    unfolding has_ask_def using tick_index [OF assms, of t] by blast
qed

lemma has_bid_wf:
  assumes "wf_book b"
  shows "has_bid b t \<longleftrightarrow> - levels b \<le> t \<and> t \<le> levels b \<and> 0 < bid_size b ! nat (t + levels b)"
proof
  assume "has_bid b t"
  then obtain i where i: "i < length (price b)" "price b ! i = t" "0 < bid_size b ! i"
    by (auto simp: has_bid_def)
  have "t = int i - levels b" using nth_price_wf [OF assms i(1)] i(2) by simp
  moreover have "i < nat (2 * levels b + 1)" using i(1) length_price_wf [OF assms] by simp
  ultimately show "- levels b \<le> t \<and> t \<le> levels b \<and> 0 < bid_size b ! nat (t + levels b)"
    using i(3) by auto
next
  assume r: "- levels b \<le> t \<and> t \<le> levels b \<and> 0 < bid_size b ! nat (t + levels b)"
  then show "has_bid b t"
    unfolding has_bid_def using tick_index [OF assms, of t] by blast
qed

lemma wf_lengths:
  "wf_book b \<Longrightarrow> length (ask_size b) = length (price b)"
  "wf_book b \<Longrightarrow> length (bid_size b) = length (price b)"
  by (simp_all add: wf_book_def)

lemma market_buy_empty:
  assumes "length (ask_size b) = length (price b)" "\<forall>t. \<not> has_ask b t"
  shows "market_buy b qty = Inl ValueError"
  using best_ask_Inl_iff [OF assms(1), of ValueError] assms(2) by (simp add: market_buy_def)

text \<open>
  Claim C3. When some tick carries a bid, \<open>best_bid\<close> returns the highest such tick, and
  when some tick carries an ask, \<open>best_ask\<close> returns the lowest such tick. When no tick
  carries one, the query raises the error of numpy's reduction of an empty array
  (ValueError, the error that the specification calls EmptyBookError), and so does
  \<open>market_buy\<close> on an empty ask side.
\<close>

theorem best_quotes:
  assumes "wf_book b"
  shows "((\<exists>t. has_ask b t) \<longrightarrow>
            (\<exists>a. best_ask b = Inr a \<and> has_ask b a \<and> (\<forall>t. has_ask b t \<longrightarrow> a \<le> t)))
       \<and> ((\<exists>t. has_bid b t) \<longrightarrow>
            (\<exists>c. best_bid b = Inr c \<and> has_bid b c \<and> (\<forall>t. has_bid b t \<longrightarrow> t \<le> c)))
       \<and> ((\<forall>t. \<not> has_ask b t) \<longrightarrow>
            best_ask b = Inl ValueError \<and> market_buy b qty = Inl ValueError)
       \<and> ((\<forall>t. \<not> has_bid b t) \<longrightarrow> best_bid b = Inl ValueError)"
proof (intro conjI impI)
  assume "\<exists>t. has_ask b t"
  then obtain a where "best_ask b = Inr a"
    using best_ask_exists [OF wf_lengths(1) [OF assms]] by blast
  then show "\<exists>a. best_ask b = Inr a \<and> has_ask b a \<and> (\<forall>t. has_ask b t \<longrightarrow> a \<le> t)"
    using best_ask_Inr_iff [OF wf_lengths(1) [OF assms]] by blast
next
  assume "\<exists>t. has_bid b t"
  then obtain c where "best_bid b = Inr c"
    using best_bid_exists [OF wf_lengths(2) [OF assms]] by blast
  then show "\<exists>c. best_bid b = Inr c \<and> has_bid b c \<and> (\<forall>t. has_bid b t \<longrightarrow> t \<le> c)"
    using best_bid_Inr_iff [OF wf_lengths(2) [OF assms]] by blast
next
  assume "\<forall>t. \<not> has_ask b t"
  then show "best_ask b = Inl ValueError"
    using best_ask_Inl_iff [OF wf_lengths(1) [OF assms]] by blast
next
  assume "\<forall>t. \<not> has_ask b t"
  then show "market_buy b qty = Inl ValueError"
    using market_buy_empty [OF wf_lengths(1) [OF assms]] by blast
next
  assume "\<forall>t. \<not> has_bid b t"
  then show "best_bid b = Inl ValueError"
    using best_bid_Inl_iff [OF wf_lengths(2) [OF assms]] by blast
qed

subsection \<open>Best quotes of the freshly constructed book\<close>

lemma has_ask_init: "has_ask Book_init t \<longleftrightarrow> 1 \<le> t \<and> t \<le> 1000"
proof (cases "-1000 \<le> t \<and> t \<le> 1000")
  case True
  then have "nat (t + 1000) < 2001" by linarith
  then show ?thesis
    using True by (simp add: has_ask_wf [OF wf_book_init] levels_init nth_ask_init) linarith
next
  case False
  then show ?thesis by (auto simp: has_ask_wf [OF wf_book_init] levels_init)
qed

lemma has_bid_init: "has_bid Book_init t \<longleftrightarrow> -1000 \<le> t \<and> t \<le> -1"
proof (cases "-1000 \<le> t \<and> t \<le> 1000")
  case True
  then have "nat (t + 1000) < 2001" by linarith
  then show ?thesis
    using True by (simp add: has_bid_wf [OF wf_book_init] levels_init nth_bid_init) linarith
next
  case False
  then show ?thesis by (auto simp: has_bid_wf [OF wf_book_init] levels_init)
qed

lemma best_ask_init: "best_ask Book_init = Inr 1"
  by (simp add: best_ask_Inr_iff [OF wf_lengths(1) [OF wf_book_init]] has_ask_init)

lemma best_bid_init: "best_bid Book_init = Inr (-1)"
  by (simp add: best_bid_Inr_iff [OF wf_lengths(2) [OF wf_book_init]] has_bid_init)

lemma length_price_init: "length (price Book_init) = 2001"
  using length_price_wf [OF wf_book_init] by (simp add: levels_init)

lemma wf_book_drained:
  "wf_book (Book_init\<lparr>bid_size := np_repeat 0 2001, ask_size := np_repeat 0 2001\<rparr>)"
proof -
  have "length (arange (- levels Book_init) (levels Book_init + 1)) = 2001"
    using length_price_init wf_book_init by (simp add: wf_book_def)
  then show ?thesis
    using wf_book_init by (simp add: wf_book_def np_repeat_def)
qed

lemma drained_no_ask:
  "\<not> has_ask (Book_init\<lparr>bid_size := np_repeat 0 2001, ask_size := np_repeat 0 2001\<rparr>) t"
  by (auto simp: has_ask_def np_repeat_def length_price_init)

lemma drained_no_bid:
  "\<not> has_bid (Book_init\<lparr>bid_size := np_repeat 0 2001, ask_size := np_repeat 0 2001\<rparr>) t"
  by (auto simp: has_bid_def np_repeat_def length_price_init)

theorem best_quotes_witness:
  "wf_book Book_init \<and> (\<exists>t. has_ask Book_init t) \<and> (\<exists>t. has_bid Book_init t)
   \<and> best_ask Book_init = Inr 1 \<and> best_bid Book_init = Inr (-1)
   \<and> wf_book (Book_init\<lparr>bid_size := np_repeat 0 2001, ask_size := np_repeat 0 2001\<rparr>)
   \<and> (\<forall>t. \<not> has_ask (Book_init\<lparr>bid_size := np_repeat 0 2001, ask_size := np_repeat 0 2001\<rparr>) t)
   \<and> (\<forall>t. \<not> has_bid (Book_init\<lparr>bid_size := np_repeat 0 2001, ask_size := np_repeat 0 2001\<rparr>) t)
   \<and> best_ask (Book_init\<lparr>bid_size := np_repeat 0 2001, ask_size := np_repeat 0 2001\<rparr>)
       = Inl ValueError
   \<and> best_bid (Book_init\<lparr>bid_size := np_repeat 0 2001, ask_size := np_repeat 0 2001\<rparr>)
       = Inl ValueError
   \<and> market_buy (Book_init\<lparr>bid_size := np_repeat 0 2001, ask_size := np_repeat 0 2001\<rparr>) 1
       = Inl ValueError"
proof -
  let ?d = "Book_init\<lparr>bid_size := np_repeat 0 2001, ask_size := np_repeat 0 2001\<rparr>"
  have a: "\<exists>t. has_ask Book_init t" using has_ask_init [of 1] by auto
  have c: "\<exists>t. has_bid Book_init t" using has_bid_init [of "-1"] by auto
  obtain x where x: "best_ask Book_init = Inr x" "has_ask Book_init x"
      "\<forall>t. has_ask Book_init t \<longrightarrow> x \<le> t"
    using best_quotes [OF wf_book_init, of 1] a by blast
  have "1 \<le> x" using x(2) has_ask_init by blast
  moreover have "x \<le> 1" using x(3) has_ask_init [of 1] by simp
  ultimately have x1: "best_ask Book_init = Inr 1" using x(1) by simp
  obtain y where y: "best_bid Book_init = Inr y" "has_bid Book_init y"
      "\<forall>t. has_bid Book_init t \<longrightarrow> t \<le> y"
    using best_quotes [OF wf_book_init, of 1] c by blast
  have "y \<le> -1" using y(2) has_bid_init by blast
  moreover have "-1 \<le> y" using y(3) has_bid_init [of "-1"] by simp
  ultimately have y1: "best_bid Book_init = Inr (-1)" using y(1) by simp
  have na: "\<forall>t. \<not> has_ask ?d t" using drained_no_ask by blast
  have nb: "\<forall>t. \<not> has_bid ?d t" using drained_no_bid by blast
  have d: "best_ask ?d = Inl ValueError \<and> market_buy ?d 1 = Inl ValueError"
      "best_bid ?d = Inl ValueError"
    using best_quotes [OF wf_book_drained, of 1] na nb by blast+
  show ?thesis
    using a c x1 y1 na nb d wf_book_init wf_book_drained by blast
qed

subsection \<open>64-bit arithmetic\<close>

lemma int64_wrap64: "int64 (wrap64 x)"
proof -
  define m where "m = (x + 2 ^ 63) mod (2 ^ 64 :: int)"
  have "0 \<le> m" "m < 2 ^ 64" by (simp_all add: m_def)
  then have "- (2 ^ 63) \<le> m - 2 ^ 63 \<and> m - 2 ^ 63 < (2 ^ 63 :: int)" by simp
  then show ?thesis by (simp add: int64_def wrap64_def m_def)
qed

lemma wrap64_id: "int64 x \<Longrightarrow> wrap64 x = x"
proof -
  assume "int64 x"
  then have "0 \<le> x + 2 ^ 63" "x + 2 ^ 63 < (2 ^ 64 :: int)" by (simp_all add: int64_def)
  then have "(x + 2 ^ 63) mod (2 ^ 64 :: int) = x + 2 ^ 63" by (rule mod_pos_pos_trivial)
  then show ?thesis by (simp add: wrap64_def)
qed

lemma wrap64_add_sub:
  assumes "int64 x"
  shows "wrap64 (wrap64 (x + q) - q) = x"
proof -
  have "(wrap64 (x + q) - q + 2 ^ 63) mod (2 ^ 64 :: int)
      = ((x + q + 2 ^ 63) mod 2 ^ 64 - q) mod 2 ^ 64"
    by (simp add: wrap64_def)
  also have "\<dots> = (x + q + 2 ^ 63 - q) mod 2 ^ 64" by (rule mod_diff_left_eq)
  also have "\<dots> = (x + 2 ^ 63) mod 2 ^ 64" by simp
  finally have "wrap64 (wrap64 (x + q) - q) = wrap64 x" by (simp add: wrap64_def)
  then show ?thesis using wrap64_id [OF assms] by simp
qed

lemma int64_small: "- 1000000 \<le> x \<Longrightarrow> x \<le> 1000000 \<Longrightarrow> int64 x"
  by (simp add: int64_def)

lemma wrap64_small: "- 1000000 \<le> x \<Longrightarrow> x \<le> 1000000 \<Longrightarrow> wrap64 x = x"
  by (rule wrap64_id) (rule int64_small)

lemma int64_sub_nonneg:
  assumes "int64 k" "0 \<le> k" "int64 qty" "0 \<le> qty"
  shows "wrap64 (k - qty) = k - qty"
proof -
  have "int64 (k - qty)" using assms by (simp add: int64_def)
  then show ?thesis by (rule wrap64_id)
qed

subsection \<open>Orders on a well-formed book\<close>

lemma mask_assign_tick:
  assumes "wf_book b" "length xs = length (price b)" "- levels b \<le> t" "t \<le> levels b"
  shows "mask_assign xs (map (\<lambda>x. x = t) (price b)) v = xs[nat (t + levels b) := v]"
  using mask_assign_eq_update [OF distinct_price_wf [OF assms(1)] assms(2)
      tick_index(1) [OF assms(1,3,4)], of v] tick_index(2) [OF assms(1,3,4)]
  by simp

lemma at_price_Inr_range:
  assumes "wf_book b" "length xs = length (price b)" "at_price b xs t = Inr k"
  shows "- levels b \<le> t \<and> t \<le> levels b"
proof (rule ccontr)
  assume "\<not> (- levels b \<le> t \<and> t \<le> levels b)"
  then have "t \<notin> set (price b)" using set_price_wf [OF assms(1)] by auto
  then show False using at_price_outside [OF assms(2)] assms(3) by simp
qed

lemma limit_buy_wf:
  assumes "wf_book b" "- levels b \<le> p" "p \<le> levels b"
  shows "limit_buy b p q =
    (if int64 q
     then Inr (b\<lparr>bid_size := (bid_size b)[nat (p + levels b) :=
                  wrap64 (bid_size b ! nat (p + levels b) + q)]\<rparr>)
     else Inl OverflowError)"
  using assms
  by (simp add: limit_buy_def at_price_tick wf_lengths mask_assign_tick int64_add_def)

lemma limit_sell_wf:
  assumes "wf_book b" "- levels b \<le> p" "p \<le> levels b"
  shows "limit_sell b p q =
    (if int64 q
     then Inr (b\<lparr>ask_size := (ask_size b)[nat (p + levels b) :=
                  wrap64 (ask_size b ! nat (p + levels b) + q)]\<rparr>)
     else Inl OverflowError)"
  using assms
  by (simp add: limit_sell_def at_price_tick wf_lengths mask_assign_tick int64_add_def)

lemma cancel_buy_wf:
  assumes "wf_book b" "- levels b \<le> p" "p \<le> levels b"
  shows "cancel_buy b (Some p) co q =
    (if int64 q
     then Inr (b\<lparr>bid_size := (bid_size b)[nat (p + levels b) :=
                  wrap64 (bid_size b ! nat (p + levels b) - q)]\<rparr>)
     else Inl OverflowError)"
  using assms
  by (simp add: cancel_buy_def at_price_tick wf_lengths mask_assign_tick int64_sub_def)

lemma market_buy_wf:
  assumes "wf_book b" "best_ask b = Inr a"
  shows "market_buy b q =
    (if int64 q
     then Inr (b\<lparr>ask_size := (ask_size b)[nat (a + levels b) :=
                  wrap64 (ask_size b ! nat (a + levels b) - q)]\<rparr>)
     else Inl OverflowError)"
proof -
  have "has_ask b a" using best_ask_Inr_iff [OF wf_lengths(1) [OF assms(1)]] assms(2) by blast
  then have "- levels b \<le> a" "a \<le> levels b" using has_ask_wf [OF assms(1)] by blast+
  then show ?thesis
    using assms
    by (simp add: market_buy_def at_price_tick wf_lengths mask_assign_tick int64_sub_def)
qed

lemma market_sell_wf:
  assumes "wf_book b" "best_bid b = Inr c"
  shows "market_sell b q =
    (if int64 q
     then Inr (b\<lparr>bid_size := (bid_size b)[nat (c + levels b) :=
                  wrap64 (bid_size b ! nat (c + levels b) - q)]\<rparr>)
     else Inl OverflowError)"
proof -
  have "has_bid b c" using best_bid_Inr_iff [OF wf_lengths(2) [OF assms(1)]] assms(2) by blast
  then have "- levels b \<le> c" "c \<le> levels b" using has_bid_wf [OF assms(1)] by blast+
  then show ?thesis
    using assms
    by (simp add: market_sell_def at_price_tick wf_lengths mask_assign_tick int64_sub_def)
qed

lemma wf_book_bid_update:
  "wf_book b \<Longrightarrow> wf_book (b\<lparr>bid_size := (bid_size b)[i := v]\<rparr>)"
  by (simp add: wf_book_def)

lemma wf_book_ask_update:
  "wf_book b \<Longrightarrow> wf_book (b\<lparr>ask_size := (ask_size b)[i := v]\<rparr>)"
  by (simp add: wf_book_def)

lemma at_price_bid_update:
  assumes "wf_book b" "- levels b \<le> t" "t \<le> levels b"
  shows "at_price (b\<lparr>bid_size := (bid_size b)[nat (t + levels b) := v]\<rparr>)
           ((bid_size b)[nat (t + levels b) := v]) t = Inr v"
proof -
  let ?b1 = "b\<lparr>bid_size := (bid_size b)[nat (t + levels b) := v]\<rparr>"
  have wf1: "wf_book ?b1" using wf_book_bid_update [OF assms(1)] .
  have "nat (t + levels b) < length (bid_size b)"
    using tick_index(1) [OF assms] assms(1) by (simp add: wf_lengths)
  then show ?thesis
    using at_price_tick [OF wf1, of "bid_size ?b1" t] assms by (simp add: wf_lengths)
qed

lemma at_price_ask_update:
  assumes "wf_book b" "- levels b \<le> t" "t \<le> levels b"
  shows "at_price (b\<lparr>ask_size := (ask_size b)[nat (t + levels b) := v]\<rparr>)
           ((ask_size b)[nat (t + levels b) := v]) t = Inr v"
proof -
  let ?b1 = "b\<lparr>ask_size := (ask_size b)[nat (t + levels b) := v]\<rparr>"
  have wf1: "wf_book ?b1" using wf_book_ask_update [OF assms(1)] .
  have "nat (t + levels b) < length (ask_size b)"
    using tick_index(1) [OF assms] assms(1) by (simp add: wf_lengths)
  then show ?thesis
    using at_price_tick [OF wf1, of "ask_size ?b1" t] assms by (simp add: wf_lengths)
qed

lemma length_bid_init: "length (bid_size Book_init) = 2001"
  using wf_lengths(2) [OF wf_book_init] by (simp add: length_price_init)

lemma length_ask_init: "length (ask_size Book_init) = 2001"
  using wf_lengths(1) [OF wf_book_init] by (simp add: length_price_init)

lemma int64_cells_init: "int64_cells Book_init"
  by (simp add: int64_cells_def bid_size_init ask_size_init int64_def)

lemma int64_2_63: "\<not> int64 (2 ^ 63)" "int64 (2 ^ 63 - 1)"
  by (simp_all add: int64_def)

text \<open>
  Claim C10. For a price \<open>p\<close> of the ladder and a quantity \<open>q\<close> that fits in 64 bits,
  \<open>limit_buy(p, q)\<close> returns and has added \<open>q\<close>, in 64-bit arithmetic, to the bid cell at
  \<open>p\<close>; every other bid cell, the ask array and the price array are as before. For a
  Python integer \<open>q\<close> that does not fit, the call raises OverflowError and changes
  nothing. \<open>limit_sell(p, q)\<close> does the same to the ask cell at \<open>p\<close>.
\<close>

theorem limit_order_frame:
  assumes "wf_book b" "- levels b \<le> p" "p \<le> levels b"
  shows "(int64 q \<longrightarrow>
            (\<exists>b'. limit_buy b p q = Inr b'
               \<and> price b' = price b \<and> ask_size b' = ask_size b
               \<and> levels b' = levels b \<and> depth b' = depth b
               \<and> length (bid_size b') = length (bid_size b)
               \<and> at_price b' (bid_size b') p = Inr (wrap64 (bid_size b ! nat (p + levels b) + q))
               \<and> (\<forall>i. i \<noteq> nat (p + levels b) \<longrightarrow> bid_size b' ! i = bid_size b ! i)))
       \<and> (int64 q \<longrightarrow>
            (\<exists>b'. limit_sell b p q = Inr b'
               \<and> price b' = price b \<and> bid_size b' = bid_size b
               \<and> levels b' = levels b \<and> depth b' = depth b
               \<and> length (ask_size b') = length (ask_size b)
               \<and> at_price b' (ask_size b') p = Inr (wrap64 (ask_size b ! nat (p + levels b) + q))
               \<and> (\<forall>i. i \<noteq> nat (p + levels b) \<longrightarrow> ask_size b' ! i = ask_size b ! i)))
       \<and> (\<not> int64 q \<longrightarrow>
            limit_buy b p q = Inl OverflowError \<and> limit_sell b p q = Inl OverflowError)"
proof (intro conjI impI)
  let ?i = "nat (p + levels b)"
  assume q: "int64 q"
  let ?b1 = "b\<lparr>bid_size := (bid_size b)[?i := wrap64 (bid_size b ! ?i + q)]\<rparr>"
  have "limit_buy b p q = Inr ?b1" using limit_buy_wf [OF assms, of q] q by simp
  moreover have "at_price ?b1 (bid_size ?b1) p = Inr (wrap64 (bid_size b ! ?i + q))"
    using at_price_bid_update [OF assms] by simp
  ultimately show "\<exists>b'. limit_buy b p q = Inr b'
               \<and> price b' = price b \<and> ask_size b' = ask_size b
               \<and> levels b' = levels b \<and> depth b' = depth b
               \<and> length (bid_size b') = length (bid_size b)
               \<and> at_price b' (bid_size b') p = Inr (wrap64 (bid_size b ! nat (p + levels b) + q))
               \<and> (\<forall>i. i \<noteq> nat (p + levels b) \<longrightarrow> bid_size b' ! i = bid_size b ! i)"
    by simp
next
  let ?i = "nat (p + levels b)"
  assume q: "int64 q"
  let ?b2 = "b\<lparr>ask_size := (ask_size b)[?i := wrap64 (ask_size b ! ?i + q)]\<rparr>"
  have "limit_sell b p q = Inr ?b2" using limit_sell_wf [OF assms, of q] q by simp
  moreover have "at_price ?b2 (ask_size ?b2) p = Inr (wrap64 (ask_size b ! ?i + q))"
    using at_price_ask_update [OF assms] by simp
  ultimately show "\<exists>b'. limit_sell b p q = Inr b'
               \<and> price b' = price b \<and> bid_size b' = bid_size b
               \<and> levels b' = levels b \<and> depth b' = depth b
               \<and> length (ask_size b') = length (ask_size b)
               \<and> at_price b' (ask_size b') p = Inr (wrap64 (ask_size b ! nat (p + levels b) + q))
               \<and> (\<forall>i. i \<noteq> nat (p + levels b) \<longrightarrow> ask_size b' ! i = ask_size b ! i)"
    by simp
next
  assume "\<not> int64 q"
  then show "limit_buy b p q = Inl OverflowError" using limit_buy_wf [OF assms, of q] by simp
next
  assume "\<not> int64 q"
  then show "limit_sell b p q = Inl OverflowError" using limit_sell_wf [OF assms, of q] by simp
qed

theorem limit_order_frame_witness:
  "wf_book Book_init \<and> - levels Book_init \<le> 3 \<and> 3 \<le> levels Book_init
   \<and> int64 2 \<and> \<not> int64 (2 ^ 63)
   \<and> (\<exists>b'. limit_buy Book_init 3 2 = Inr b'
           \<and> price b' = price Book_init \<and> ask_size b' = ask_size Book_init
           \<and> at_price b' (bid_size b') 3 = Inr 2
           \<and> (\<forall>i. i \<noteq> 1003 \<longrightarrow> bid_size b' ! i = bid_size Book_init ! i))
   \<and> (\<exists>b'. limit_sell Book_init 3 2 = Inr b'
           \<and> price b' = price Book_init \<and> bid_size b' = bid_size Book_init
           \<and> at_price b' (ask_size b') 3 = Inr 4
           \<and> (\<forall>i. i \<noteq> 1003 \<longrightarrow> ask_size b' ! i = ask_size Book_init ! i))
   \<and> limit_buy Book_init 3 (2 ^ 63) = Inl OverflowError
   \<and> limit_sell Book_init 3 (2 ^ 63) = Inl OverflowError"
proof -
  have h: "- levels Book_init \<le> 3" "3 \<le> levels Book_init" by (simp_all add: levels_init)
  have i: "int64 2" by (simp add: int64_def)
  have w: "wrap64 2 = 2" "wrap64 4 = 4" by (simp_all add: wrap64_small)
  have 1: "\<exists>b'. limit_buy Book_init 3 2 = Inr b'
           \<and> price b' = price Book_init \<and> ask_size b' = ask_size Book_init
           \<and> at_price b' (bid_size b') 3 = Inr 2
           \<and> (\<forall>i. i \<noteq> 1003 \<longrightarrow> bid_size b' ! i = bid_size Book_init ! i)"
    using limit_order_frame [OF wf_book_init h, of 2] i w
    by (simp add: levels_init nth_bid_init) blast
  have 2: "\<exists>b'. limit_sell Book_init 3 2 = Inr b'
           \<and> price b' = price Book_init \<and> bid_size b' = bid_size Book_init
           \<and> at_price b' (ask_size b') 3 = Inr 4
           \<and> (\<forall>i. i \<noteq> 1003 \<longrightarrow> ask_size b' ! i = ask_size Book_init ! i)"
    using limit_order_frame [OF wf_book_init h, of 2] i w
    by (simp add: levels_init nth_ask_init) blast
  have 3: "limit_buy Book_init 3 (2 ^ 63) = Inl OverflowError
      \<and> limit_sell Book_init 3 (2 ^ 63) = Inl OverflowError"
    using limit_order_frame [OF wf_book_init h, of "2 ^ 63"] int64_2_63(1) by blast
  show ?thesis using wf_book_init h i int64_2_63(1) 1 2 3 by blast
qed

text \<open>
  Claim C5. For a price \<open>p\<close> of the ladder and a quantity \<open>q\<close> that fits in 64 bits,
  \<open>limit_buy(p, q)\<close> followed by \<open>cancel_buy(price=p, qty=q)\<close> gives back the book as it
  was, also when the sum wraps around: the bid cell at \<open>p\<close> has its former value and no
  other cell has changed. For a Python integer \<open>q\<close> that does not fit, both calls raise
  OverflowError and the book is untouched.
\<close>

theorem limit_cancel_round_trip:
  assumes "wf_book b" "int64_cells b" "- levels b \<le> p" "p \<le> levels b"
  shows "(int64 q \<longrightarrow>
            (\<exists>b1. limit_buy b p q = Inr b1 \<and> cancel_buy b1 (Some p) None q = Inr b))
       \<and> (\<not> int64 q \<longrightarrow>
            limit_buy b p q = Inl OverflowError
            \<and> cancel_buy b (Some p) None q = Inl OverflowError)"
proof (intro conjI impI)
  assume q: "int64 q"
  let ?i = "nat (p + levels b)"
  let ?b1 = "b\<lparr>bid_size := (bid_size b)[?i := wrap64 (bid_size b ! ?i + q)]\<rparr>"
  have i: "?i < length (bid_size b)"
    using tick_index(1) [OF assms(1,3,4)] assms(1) by (simp add: wf_lengths)
  then have "bid_size b ! ?i \<in> set (bid_size b)" by simp
  then have x: "int64 (bid_size b ! ?i)" using assms(2) by (simp add: int64_cells_def)
  have 1: "limit_buy b p q = Inr ?b1" using limit_buy_wf [OF assms(1,3,4), of q] q by simp
  have wf1: "wf_book ?b1" using wf_book_bid_update [OF assms(1)] .
  have "cancel_buy ?b1 (Some p) None q =
      Inr (?b1\<lparr>bid_size := (bid_size ?b1)[?i := wrap64 (bid_size ?b1 ! ?i - q)]\<rparr>)"
    using cancel_buy_wf [OF wf1, of p None q] assms(3,4) q by simp
  also have "\<dots> = Inr b" using i wrap64_add_sub [OF x, of q] by simp
  finally show "\<exists>b1. limit_buy b p q = Inr b1 \<and> cancel_buy b1 (Some p) None q = Inr b"
    using 1 by blast
next
  assume "\<not> int64 q"
  then show "limit_buy b p q = Inl OverflowError"
    using limit_buy_wf [OF assms(1,3,4), of q] by simp
next
  assume "\<not> int64 q"
  then show "cancel_buy b (Some p) None q = Inl OverflowError"
    using cancel_buy_wf [OF assms(1,3,4), of None q] by simp
qed

theorem limit_cancel_round_trip_witness:
  "wf_book Book_init \<and> int64_cells Book_init
   \<and> - levels Book_init \<le> 3 \<and> 3 \<le> levels Book_init
   \<and> int64 (2 ^ 63 - 1) \<and> \<not> int64 (2 ^ 63)
   \<and> (\<exists>b1. limit_buy Book_init 3 (2 ^ 63 - 1) = Inr b1
         \<and> cancel_buy b1 (Some 3) None (2 ^ 63 - 1) = Inr Book_init)
   \<and> limit_buy Book_init 3 (2 ^ 63) = Inl OverflowError
   \<and> cancel_buy Book_init (Some 3) None (2 ^ 63) = Inl OverflowError"
proof -
  have h: "- levels Book_init \<le> 3" "3 \<le> levels Book_init" by (simp_all add: levels_init)
  show ?thesis
    using limit_cancel_round_trip [OF wf_book_init int64_cells_init h, of "2 ^ 63 - 1"]
      limit_cancel_round_trip [OF wf_book_init int64_cells_init h, of "2 ^ 63"]
      wf_book_init int64_cells_init h int64_2_63
    by blast
qed

subsection \<open>Cancellations and negative cells\<close>

lemma cancel_sell_never_returns: "cancel_sell b pa co q \<noteq> Inr b'"
  by (simp add: cancel_sell_def bind_err_def int64_sub_def split: option.splits sum.splits)

text \<open>
  Claim C8. On the freshly constructed book, whose ask cell at tick 1 holds 1,
  \<open>cancel_sell(price=1, qty=1)\<close> raises AttributeError and decrements nothing; no call of
  \<open>cancel_sell\<close> returns a book at all.
\<close>

theorem cancel_sell_raises:
  "at_price Book_init (ask_size Book_init) 1 = Inr 1
   \<and> cancel_sell Book_init (Some 1) None 1 = Inl AttributeError
   \<and> cancel_sell b pa co q \<noteq> Inr b'"
proof -
  have "cancel_sell Book_init (Some 1) None 1 = Inl AttributeError"
    by (simp add: cancel_sell_def ask_tick_init int64_sub_def int64_small)
  then show ?thesis
    by (simp add: cancel_sell_never_returns ask_tick_init)
qed

lemma nonneg_init: "nonneg Book_init"
  by (simp add: nonneg_def bid_size_init ask_size_init)

lemma nonneg_bid_update:
  assumes "nonneg b" "i < length (bid_size b)"
  shows "nonneg (b\<lparr>bid_size := (bid_size b)[i := v]\<rparr>) \<longleftrightarrow> 0 \<le> v"
proof
  assume "nonneg (b\<lparr>bid_size := (bid_size b)[i := v]\<rparr>)"
  moreover have "v \<in> set ((bid_size b)[i := v])" using assms(2) by (rule set_update_memI)
  ultimately show "0 \<le> v" by (simp add: nonneg_def)
next
  assume "0 \<le> v"
  moreover have "set ((bid_size b)[i := v]) \<subseteq> insert v (set (bid_size b))"
    by (rule set_update_subset_insert)
  ultimately show "nonneg (b\<lparr>bid_size := (bid_size b)[i := v]\<rparr>)"
    using assms(1) by (auto simp: nonneg_def)
qed

lemma nonneg_ask_update:
  assumes "nonneg b" "i < length (ask_size b)"
  shows "nonneg (b\<lparr>ask_size := (ask_size b)[i := v]\<rparr>) \<longleftrightarrow> 0 \<le> v"
proof
  assume "nonneg (b\<lparr>ask_size := (ask_size b)[i := v]\<rparr>)"
  moreover have "v \<in> set ((ask_size b)[i := v])" using assms(2) by (rule set_update_memI)
  ultimately show "0 \<le> v" by (simp add: nonneg_def)
next
  assume "0 \<le> v"
  moreover have "set ((ask_size b)[i := v]) \<subseteq> insert v (set (ask_size b))"
    by (rule set_update_subset_insert)
  ultimately show "nonneg (b\<lparr>ask_size := (ask_size b)[i := v]\<rparr>)"
    using assms(1) by (auto simp: nonneg_def)
qed

lemma cancel_buy_init_0:
  "cancel_buy Book_init (Some 0) None 1 =
     Inr (Book_init\<lparr>bid_size := (bid_size Book_init)[1000 := - 1]\<rparr>)"
  using cancel_buy_wf [OF wf_book_init, of 0 None 1]
  by (simp add: levels_init nth_bid_init int64_small wrap64_small)

lemma market_buy_init_2:
  "market_buy Book_init 2 =
     Inr (Book_init\<lparr>ask_size := (ask_size Book_init)[1001 := - 1]\<rparr>)"
  using market_buy_wf [OF wf_book_init best_ask_init, of 2]
  by (simp add: levels_init nth_ask_init int64_small wrap64_small)

text \<open>
  Claim C1 says that no decrementing operation drives a cell negative. On the freshly
  constructed book, where every cell is non-negative, \<open>cancel_buy(price=0)\<close> takes 1 from
  the empty bid cell at tick 0 and leaves -1 there, and \<open>market_buy(qty=2)\<close> leaves -1 in
  the ask cell at tick 1, which held 1. Neither call raises.
\<close>

theorem decrement_goes_negative:
  "nonneg Book_init
   \<and> cancel_buy Book_init (Some 0) None 1 =
       Inr (Book_init\<lparr>bid_size := (bid_size Book_init)[1000 := - 1]\<rparr>)
   \<and> \<not> nonneg (Book_init\<lparr>bid_size := (bid_size Book_init)[1000 := - 1]\<rparr>)
   \<and> market_buy Book_init 2 =
       Inr (Book_init\<lparr>ask_size := (ask_size Book_init)[1001 := - 1]\<rparr>)
   \<and> \<not> nonneg (Book_init\<lparr>ask_size := (ask_size Book_init)[1001 := - 1]\<rparr>)"
  using nonneg_init cancel_buy_init_0 market_buy_init_2
    nonneg_bid_update [OF nonneg_init, of 1000 "-1"] nonneg_ask_update [OF nonneg_init, of 1001 "-1"]
  by (simp add: length_bid_init length_ask_init)

subsection \<open>Decrements\<close>

lemma market_buy_Inr:
  assumes "wf_book b" "market_buy b qty = Inr b'"
  shows "\<exists>a. best_ask b = Inr a \<and> - levels b \<le> a \<and> a \<le> levels b
           \<and> 0 < ask_size b ! nat (a + levels b)
           \<and> b' = b\<lparr>ask_size := (ask_size b)[nat (a + levels b) :=
                      wrap64 (ask_size b ! nat (a + levels b) - qty)]\<rparr>"
proof -
  obtain a where a: "best_ask b = Inr a"
    using assms(2) by (auto simp: market_buy_def bind_err_eq_Inr)
  have "has_ask b a" using best_ask_Inr_iff [OF wf_lengths(1) [OF assms(1)]] a by blast
  then have r: "- levels b \<le> a" "a \<le> levels b" "0 < ask_size b ! nat (a + levels b)"
    using has_ask_wf [OF assms(1)] by blast+
  show ?thesis
    using market_buy_wf [OF assms(1) a, of qty] assms(2) a r by (auto split: if_splits)
qed

lemma market_sell_Inr:
  assumes "wf_book b" "market_sell b qty = Inr b'"
  shows "\<exists>c. best_bid b = Inr c \<and> - levels b \<le> c \<and> c \<le> levels b
           \<and> 0 < bid_size b ! nat (c + levels b)
           \<and> b' = b\<lparr>bid_size := (bid_size b)[nat (c + levels b) :=
                      wrap64 (bid_size b ! nat (c + levels b) - qty)]\<rparr>"
proof -
  obtain c where c: "best_bid b = Inr c"
    using assms(2) by (auto simp: market_sell_def bind_err_eq_Inr)
  have "has_bid b c" using best_bid_Inr_iff [OF wf_lengths(2) [OF assms(1)]] c by blast
  then have r: "- levels b \<le> c" "c \<le> levels b" "0 < bid_size b ! nat (c + levels b)"
    using has_bid_wf [OF assms(1)] by blast+
  show ?thesis
    using market_sell_wf [OF assms(1) c, of qty] assms(2) c r by (auto split: if_splits)
qed

lemma cancel_buy_Inr:
  assumes "wf_book b" "cancel_buy b (Some p) co qty = Inr b'"
  shows "- levels b \<le> p \<and> p \<le> levels b
           \<and> b' = b\<lparr>bid_size := (bid_size b)[nat (p + levels b) :=
                      wrap64 (bid_size b ! nat (p + levels b) - qty)]\<rparr>"
proof -
  obtain k where "at_price b (bid_size b) p = Inr k"
    using assms(2) by (auto simp: cancel_buy_def bind_err_eq_Inr)
  then have r: "- levels b \<le> p \<and> p \<le> levels b"
    using at_price_Inr_range [OF assms(1) wf_lengths(2) [OF assms(1)]] by blast
  then show ?thesis
    using cancel_buy_wf [OF assms(1), of p co qty] assms(2) by (auto split: if_splits)
qed

lemma bid_decrement:
  assumes "wf_book b" "int64_cells b" "nonneg b" "0 \<le> qty" "int64 qty"
    "- levels b \<le> p" "p \<le> levels b"
  shows "wrap64 (bid_size b ! nat (p + levels b) - qty) = bid_size b ! nat (p + levels b) - qty"
    and "nonneg (b\<lparr>bid_size := (bid_size b)[nat (p + levels b) :=
                   bid_size b ! nat (p + levels b) - qty]\<rparr>)
          \<longleftrightarrow> qty \<le> bid_size b ! nat (p + levels b)"
proof -
  let ?i = "nat (p + levels b)"
  have i: "?i < length (bid_size b)"
    using tick_index(1) [OF assms(1,6,7)] assms(1) by (simp add: wf_lengths)
  then have m: "bid_size b ! ?i \<in> set (bid_size b)" by simp
  have k: "int64 (bid_size b ! ?i)" "0 \<le> bid_size b ! ?i"
    using m assms(2,3) by (simp_all add: int64_cells_def nonneg_def)
  show "wrap64 (bid_size b ! ?i - qty) = bid_size b ! ?i - qty"
    using int64_sub_nonneg [OF k assms(5,4)] .
  show "nonneg (b\<lparr>bid_size := (bid_size b)[?i := bid_size b ! ?i - qty]\<rparr>)
          \<longleftrightarrow> qty \<le> bid_size b ! ?i"
    using nonneg_bid_update [OF assms(3) i, of "bid_size b ! ?i - qty"] by simp
qed

lemma ask_decrement:
  assumes "wf_book b" "int64_cells b" "nonneg b" "0 \<le> qty" "int64 qty"
    "- levels b \<le> p" "p \<le> levels b"
  shows "wrap64 (ask_size b ! nat (p + levels b) - qty) = ask_size b ! nat (p + levels b) - qty"
    and "nonneg (b\<lparr>ask_size := (ask_size b)[nat (p + levels b) :=
                   ask_size b ! nat (p + levels b) - qty]\<rparr>)
          \<longleftrightarrow> qty \<le> ask_size b ! nat (p + levels b)"
proof -
  let ?i = "nat (p + levels b)"
  have i: "?i < length (ask_size b)"
    using tick_index(1) [OF assms(1,6,7)] assms(1) by (simp add: wf_lengths)
  then have m: "ask_size b ! ?i \<in> set (ask_size b)" by simp
  have k: "int64 (ask_size b ! ?i)" "0 \<le> ask_size b ! ?i"
    using m assms(2,3) by (simp_all add: int64_cells_def nonneg_def)
  show "wrap64 (ask_size b ! ?i - qty) = ask_size b ! ?i - qty"
    using int64_sub_nonneg [OF k assms(5,4)] .
  show "nonneg (b\<lparr>ask_size := (ask_size b)[?i := ask_size b ! ?i - qty]\<rparr>)
          \<longleftrightarrow> qty \<le> ask_size b ! ?i"
    using nonneg_ask_update [OF assms(3) i, of "ask_size b ! ?i - qty"] by simp
qed

text \<open>
  Claim C1, as amended. Take a well-formed book without negative cells and a quantity
  \<open>qty\<close> from 0 up that fits in 64 bits. Then \<open>market_buy(qty)\<close> on a non-empty ask side,
  \<open>market_sell(qty)\<close> on a non-empty bid side and \<open>cancel_buy(price, qty)\<close> at a price of
  the ladder all return; none clamps and none reports an error. Each replaces one cell,
  at the best ask, at the best bid or at the given price, by its value minus \<open>qty\<close> and
  leaves every other cell as it was, so that the new book is free of negative cells
  exactly when \<open>qty\<close> is at most the quantity that rested in that cell.
\<close>

theorem decrements_without_clamp:
  assumes "wf_book b" "int64_cells b" "nonneg b" "0 \<le> qty" "int64 qty"
  shows "(best_ask b = Inr a \<longrightarrow>
            market_buy b qty =
              Inr (b\<lparr>ask_size := (ask_size b)[nat (a + levels b) :=
                       ask_size b ! nat (a + levels b) - qty]\<rparr>)
            \<and> (nonneg (b\<lparr>ask_size := (ask_size b)[nat (a + levels b) :=
                       ask_size b ! nat (a + levels b) - qty]\<rparr>)
                 \<longleftrightarrow> qty \<le> ask_size b ! nat (a + levels b)))
       \<and> (best_bid b = Inr c \<longrightarrow>
            market_sell b qty =
              Inr (b\<lparr>bid_size := (bid_size b)[nat (c + levels b) :=
                       bid_size b ! nat (c + levels b) - qty]\<rparr>)
            \<and> (nonneg (b\<lparr>bid_size := (bid_size b)[nat (c + levels b) :=
                       bid_size b ! nat (c + levels b) - qty]\<rparr>)
                 \<longleftrightarrow> qty \<le> bid_size b ! nat (c + levels b)))
       \<and> (- levels b \<le> p \<and> p \<le> levels b \<longrightarrow>
            cancel_buy b (Some p) co qty =
              Inr (b\<lparr>bid_size := (bid_size b)[nat (p + levels b) :=
                       bid_size b ! nat (p + levels b) - qty]\<rparr>)
            \<and> (nonneg (b\<lparr>bid_size := (bid_size b)[nat (p + levels b) :=
                       bid_size b ! nat (p + levels b) - qty]\<rparr>)
                 \<longleftrightarrow> qty \<le> bid_size b ! nat (p + levels b)))"
proof (intro conjI impI)
  assume a: "best_ask b = Inr a"
  have "has_ask b a" using best_ask_Inr_iff [OF wf_lengths(1) [OF assms(1)]] a by blast
  then have r: "- levels b \<le> a" "a \<le> levels b" using has_ask_wf [OF assms(1)] by blast+
  show "market_buy b qty =
      Inr (b\<lparr>ask_size := (ask_size b)[nat (a + levels b) :=
               ask_size b ! nat (a + levels b) - qty]\<rparr>)"
    using market_buy_wf [OF assms(1) a, of qty] assms(5) ask_decrement(1) [OF assms r] by simp
  show "nonneg (b\<lparr>ask_size := (ask_size b)[nat (a + levels b) :=
               ask_size b ! nat (a + levels b) - qty]\<rparr>)
         \<longleftrightarrow> qty \<le> ask_size b ! nat (a + levels b)"
    using ask_decrement(2) [OF assms r] .
next
  assume c: "best_bid b = Inr c"
  have "has_bid b c" using best_bid_Inr_iff [OF wf_lengths(2) [OF assms(1)]] c by blast
  then have r: "- levels b \<le> c" "c \<le> levels b" using has_bid_wf [OF assms(1)] by blast+
  show "market_sell b qty =
      Inr (b\<lparr>bid_size := (bid_size b)[nat (c + levels b) :=
               bid_size b ! nat (c + levels b) - qty]\<rparr>)"
    using market_sell_wf [OF assms(1) c, of qty] assms(5) bid_decrement(1) [OF assms r] by simp
  show "nonneg (b\<lparr>bid_size := (bid_size b)[nat (c + levels b) :=
               bid_size b ! nat (c + levels b) - qty]\<rparr>)
         \<longleftrightarrow> qty \<le> bid_size b ! nat (c + levels b)"
    using bid_decrement(2) [OF assms r] .
next
  assume p: "- levels b \<le> p \<and> p \<le> levels b"
  then have r: "- levels b \<le> p" "p \<le> levels b" by simp_all
  show "cancel_buy b (Some p) co qty =
      Inr (b\<lparr>bid_size := (bid_size b)[nat (p + levels b) :=
               bid_size b ! nat (p + levels b) - qty]\<rparr>)"
    using cancel_buy_wf [OF assms(1) r, of co qty] assms(5) bid_decrement(1) [OF assms r] by simp
  show "nonneg (b\<lparr>bid_size := (bid_size b)[nat (p + levels b) :=
               bid_size b ! nat (p + levels b) - qty]\<rparr>)
         \<longleftrightarrow> qty \<le> bid_size b ! nat (p + levels b)"
    using bid_decrement(2) [OF assms r] .
qed

lemma market_buy_init_1:
  "market_buy Book_init 1 =
     Inr (Book_init\<lparr>ask_size := (ask_size Book_init)[1001 := 0]\<rparr>)"
  using market_buy_wf [OF wf_book_init best_ask_init, of 1]
  by (simp add: levels_init nth_ask_init int64_small wrap64_small)

theorem decrements_without_clamp_witness:
  "wf_book Book_init \<and> int64_cells Book_init \<and> nonneg Book_init \<and> (0::int) \<le> 2 \<and> int64 2
   \<and> best_ask Book_init = Inr 1 \<and> best_bid Book_init = Inr (- 1)
   \<and> - levels Book_init \<le> 0 \<and> 0 \<le> levels Book_init
   \<and> market_buy Book_init 2 = Inr (Book_init\<lparr>ask_size := (ask_size Book_init)[1001 := - 1]\<rparr>)
   \<and> \<not> nonneg (Book_init\<lparr>ask_size := (ask_size Book_init)[1001 := - 1]\<rparr>)
   \<and> market_sell Book_init 2 = Inr (Book_init\<lparr>bid_size := (bid_size Book_init)[999 := - 1]\<rparr>)
   \<and> \<not> nonneg (Book_init\<lparr>bid_size := (bid_size Book_init)[999 := - 1]\<rparr>)
   \<and> cancel_buy Book_init (Some 0) None 2
       = Inr (Book_init\<lparr>bid_size := (bid_size Book_init)[1000 := - 2]\<rparr>)
   \<and> \<not> nonneg (Book_init\<lparr>bid_size := (bid_size Book_init)[1000 := - 2]\<rparr>)
   \<and> market_sell Book_init 1 = Inr (Book_init\<lparr>bid_size := (bid_size Book_init)[999 := 0]\<rparr>)
   \<and> nonneg (Book_init\<lparr>bid_size := (bid_size Book_init)[999 := 0]\<rparr>)"
proof -
  have q: "(0::int) \<le> 2" "int64 2" "(0::int) \<le> 1" "int64 1" by (simp_all add: int64_def)
  have h: "- levels Book_init \<le> 0 \<and> 0 \<le> levels Book_init" by (simp add: levels_init)
  note t2 = decrements_without_clamp [OF wf_book_init int64_cells_init nonneg_init q(1,2),
      of 1 "-1" 0 None]
  note t1 = decrements_without_clamp [OF wf_book_init int64_cells_init nonneg_init q(3,4),
      of 1 "-1" 0 None]
  have 1: "market_buy Book_init 2
        = Inr (Book_init\<lparr>ask_size := (ask_size Book_init)[1001 := - 1]\<rparr>)
      \<and> \<not> nonneg (Book_init\<lparr>ask_size := (ask_size Book_init)[1001 := - 1]\<rparr>)"
    using t2 best_ask_init by (simp add: levels_init nth_ask_init)
  have 2: "market_sell Book_init 2
        = Inr (Book_init\<lparr>bid_size := (bid_size Book_init)[999 := - 1]\<rparr>)
      \<and> \<not> nonneg (Book_init\<lparr>bid_size := (bid_size Book_init)[999 := - 1]\<rparr>)"
    using t2 best_bid_init by (simp add: levels_init nth_bid_init)
  have 3: "cancel_buy Book_init (Some 0) None 2
        = Inr (Book_init\<lparr>bid_size := (bid_size Book_init)[1000 := - 2]\<rparr>)
      \<and> \<not> nonneg (Book_init\<lparr>bid_size := (bid_size Book_init)[1000 := - 2]\<rparr>)"
    using t2 h by (simp add: levels_init nth_bid_init)
  have 4: "market_sell Book_init 1
        = Inr (Book_init\<lparr>bid_size := (bid_size Book_init)[999 := 0]\<rparr>)
      \<and> nonneg (Book_init\<lparr>bid_size := (bid_size Book_init)[999 := 0]\<rparr>)"
    using t1 best_bid_init by (simp add: levels_init nth_bid_init)
  show ?thesis
    using wf_book_init int64_cells_init nonneg_init q(1,2) best_ask_init best_bid_init h 1 2 3 4
    by blast
qed

subsection \<open>The event models\<close>

text \<open>
  Claim C2. \<open>sfgk_model\<close> raises AttributeError for every book, every choice of rates and
  every draw: its first statement reads \<open>self.buy_size\<close>. No event is selected.
\<close>

theorem sfgk_model_raises: "sfgk_model b mu lamda theta L ev q = Inl AttributeError"
  by (simp add: sfgk_model_def buy_size_def)

text \<open>
  Claim C6. \<open>cst_model\<close> raises AttributeError for every book, every choice of rates and
  every draw, before any distance is drawn; and \<open>choose\<close>, handed weights \<open>prob\<close> of two or
  more entries, raises ValueError for every window and every draw.
\<close>

theorem cst_model_raises:
  "cst_model b mu lamdas thetas L ev q = Inl AttributeError
   \<and> choose_level L (Some (x # y # prob)) q = Inl ValueError"
  by (simp add: cst_model_def buy_size_def choose_level_def array_truth_def Let_def)

lemma has_ask_bid_update [simp]:
  "has_ask (b\<lparr>bid_size := xs\<rparr>) t = has_ask b t"
  by (simp add: has_ask_def)

lemma has_bid_ask_update [simp]:
  "has_bid (b\<lparr>ask_size := xs\<rparr>) t = has_bid b t"
  by (simp add: has_bid_def)

lemma has_bid_bid_update:
  assumes "wf_book b" "- levels b \<le> p" "p \<le> levels b"
  shows "has_bid (b\<lparr>bid_size := (bid_size b)[nat (p + levels b) := v]\<rparr>) s
           \<longleftrightarrow> (if s = p then 0 < v else has_bid b s)"
proof -
  let ?i = "nat (p + levels b)"
  let ?b1 = "b\<lparr>bid_size := (bid_size b)[?i := v]\<rparr>"
  have wf1: "wf_book ?b1" using wf_book_bid_update [OF assms(1)] .
  have i: "?i < length (bid_size b)"
    using tick_index(1) [OF assms] assms(1) by (simp add: wf_lengths)
  have 1: "has_bid ?b1 s \<longleftrightarrow>
      - levels b \<le> s \<and> s \<le> levels b \<and> 0 < (bid_size b)[?i := v] ! nat (s + levels b)"
    using has_bid_wf [OF wf1, of s] by simp
  show ?thesis
  proof (cases "s = p")
    case True
    then show ?thesis using 1 i assms by simp
  next
    case False
    have "- levels b \<le> s \<Longrightarrow> nat (s + levels b) \<noteq> ?i" using False assms by linarith
    then show ?thesis using 1 False has_bid_wf [OF assms(1), of s] by auto
  qed
qed

lemma has_ask_ask_update:
  assumes "wf_book b" "- levels b \<le> p" "p \<le> levels b"
  shows "has_ask (b\<lparr>ask_size := (ask_size b)[nat (p + levels b) := v]\<rparr>) s
           \<longleftrightarrow> (if s = p then 0 < v else has_ask b s)"
proof -
  let ?i = "nat (p + levels b)"
  let ?b1 = "b\<lparr>ask_size := (ask_size b)[?i := v]\<rparr>"
  have wf1: "wf_book ?b1" using wf_book_ask_update [OF assms(1)] .
  have i: "?i < length (ask_size b)"
    using tick_index(1) [OF assms] assms(1) by (simp add: wf_lengths)
  have 1: "has_ask ?b1 s \<longleftrightarrow>
      - levels b \<le> s \<and> s \<le> levels b \<and> 0 < (ask_size b)[?i := v] ! nat (s + levels b)"
    using has_ask_wf [OF wf1, of s] by simp
  show ?thesis
  proof (cases "s = p")
    case True
    then show ?thesis using 1 i assms by simp
  next
    case False
    have "- levels b \<le> s \<Longrightarrow> nat (s + levels b) \<noteq> ?i" using False assms by linarith
    then show ?thesis using 1 False has_ask_wf [OF assms(1), of s] by auto
  qed
qed

lemma market_buy_preserves:
  assumes "wf_book b" "uncrossed b" "market_buy b 1 = Inr b'"
  shows "wf_book b' \<and> uncrossed b'"
proof -
  obtain a where a: "best_ask b = Inr a" "- levels b \<le> a" "a \<le> levels b"
      "0 < ask_size b ! nat (a + levels b)"
      "b' = b\<lparr>ask_size := (ask_size b)[nat (a + levels b) :=
                      wrap64 (ask_size b ! nat (a + levels b) - 1)]\<rparr>"
    using market_buy_Inr [OF assms(1,3)] by blast
  have ha: "has_ask b a" using has_ask_wf [OF assms(1)] a by blast
  have "has_ask b' t \<Longrightarrow> has_ask b t" for t
    using has_ask_ask_update [OF assms(1) a(2,3)] a(5) ha by (auto split: if_splits)
  then have "uncrossed b'" using assms(2) a(5) by (auto simp: uncrossed_def)
  then show ?thesis using wf_book_ask_update [OF assms(1)] a(5) by simp
qed

lemma market_sell_preserves:
  assumes "wf_book b" "uncrossed b" "market_sell b 1 = Inr b'"
  shows "wf_book b' \<and> uncrossed b'"
proof -
  obtain c where c: "best_bid b = Inr c" "- levels b \<le> c" "c \<le> levels b"
      "0 < bid_size b ! nat (c + levels b)"
      "b' = b\<lparr>bid_size := (bid_size b)[nat (c + levels b) :=
                      wrap64 (bid_size b ! nat (c + levels b) - 1)]\<rparr>"
    using market_sell_Inr [OF assms(1,3)] by blast
  have hc: "has_bid b c" using has_bid_wf [OF assms(1)] c by blast
  have "has_bid b' t \<Longrightarrow> has_bid b t" for t
    using has_bid_bid_update [OF assms(1) c(2,3)] c(5) hc by (auto split: if_splits)
  then have "uncrossed b'" using assms(2) c(5) by (auto simp: uncrossed_def)
  then show ?thesis using wf_book_bid_update [OF assms(1)] c(5) by simp
qed

lemma cancel_buy_preserves:
  assumes "wf_book b" "uncrossed b" "best_ask b = Inr a" "1 \<le> q"
    "cancel_buy b (Some (a - q)) co 1 = Inr b'"
  shows "wf_book b' \<and> uncrossed b'"
proof -
  let ?p = "a - q"
  have c: "- levels b \<le> ?p" "?p \<le> levels b"
      "b' = b\<lparr>bid_size := (bid_size b)[nat (?p + levels b) :=
                      wrap64 (bid_size b ! nat (?p + levels b) - 1)]\<rparr>"
    using cancel_buy_Inr [OF assms(1,5)] by blast+
  have low: "has_ask b t \<Longrightarrow> a \<le> t" for t
    using best_ask_Inr_iff [OF wf_lengths(1) [OF assms(1)]] assms(3) by blast
  have "has_bid b' s \<Longrightarrow> has_bid b s \<or> s = ?p" for s
    using has_bid_bid_update [OF assms(1) c(1,2)] c(3) by (auto split: if_splits)
  moreover have "has_ask b' t \<Longrightarrow> has_ask b t" for t using c(3) by simp
  ultimately have "uncrossed b'"
    unfolding uncrossed_def using assms(2,4) low by (fastforce simp: uncrossed_def)
  then show ?thesis using wf_book_bid_update [OF assms(1)] c(3) by simp
qed

lemma limit_buy_Inr:
  assumes "wf_book b" "limit_buy b p qty = Inr b'"
  shows "- levels b \<le> p \<and> p \<le> levels b
           \<and> b' = b\<lparr>bid_size := (bid_size b)[nat (p + levels b) :=
                      wrap64 (bid_size b ! nat (p + levels b) + qty)]\<rparr>"
proof -
  obtain k where "at_price b (bid_size b) p = Inr k"
    using assms(2) by (auto simp: limit_buy_def bind_err_eq_Inr)
  then have r: "- levels b \<le> p \<and> p \<le> levels b"
    using at_price_Inr_range [OF assms(1) wf_lengths(2) [OF assms(1)]] by blast
  then show ?thesis
    using limit_buy_wf [OF assms(1), of p qty] assms(2) by (auto split: if_splits)
qed

lemma limit_sell_Inr:
  assumes "wf_book b" "limit_sell b p qty = Inr b'"
  shows "- levels b \<le> p \<and> p \<le> levels b
           \<and> b' = b\<lparr>ask_size := (ask_size b)[nat (p + levels b) :=
                      wrap64 (ask_size b ! nat (p + levels b) + qty)]\<rparr>"
proof -
  obtain k where "at_price b (ask_size b) p = Inr k"
    using assms(2) by (auto simp: limit_sell_def bind_err_eq_Inr)
  then have r: "- levels b \<le> p \<and> p \<le> levels b"
    using at_price_Inr_range [OF assms(1) wf_lengths(1) [OF assms(1)]] by blast
  then show ?thesis
    using limit_sell_wf [OF assms(1), of p qty] assms(2) by (auto split: if_splits)
qed

lemma limit_buy_preserves:
  assumes "wf_book b" "uncrossed b" "best_ask b = Inr a" "1 \<le> q"
    "limit_buy b (a - q) 1 = Inr b'"
  shows "wf_book b' \<and> uncrossed b'"
proof -
  let ?p = "a - q"
  have c: "- levels b \<le> ?p" "?p \<le> levels b"
      "b' = b\<lparr>bid_size := (bid_size b)[nat (?p + levels b) :=
                      wrap64 (bid_size b ! nat (?p + levels b) + 1)]\<rparr>"
    using limit_buy_Inr [OF assms(1,5)] by blast+
  have low: "has_ask b t \<Longrightarrow> a \<le> t" for t
    using best_ask_Inr_iff [OF wf_lengths(1) [OF assms(1)]] assms(3) by blast
  have "has_bid b' s \<Longrightarrow> has_bid b s \<or> s = ?p" for s
    using has_bid_bid_update [OF assms(1) c(1,2)] c(3) by (auto split: if_splits)
  moreover have "has_ask b' t \<Longrightarrow> has_ask b t" for t using c(3) by simp
  ultimately have "uncrossed b'"
    unfolding uncrossed_def using assms(2,4) low by (fastforce simp: uncrossed_def)
  then show ?thesis using wf_book_bid_update [OF assms(1)] c(3) by simp
qed

lemma limit_sell_preserves:
  assumes "wf_book b" "uncrossed b" "best_bid b = Inr c" "1 \<le> q"
    "limit_sell b (c + q) 1 = Inr b'"
  shows "wf_book b' \<and> uncrossed b'"
proof -
  let ?p = "c + q"
  have r: "- levels b \<le> ?p" "?p \<le> levels b"
      "b' = b\<lparr>ask_size := (ask_size b)[nat (?p + levels b) :=
                      wrap64 (ask_size b ! nat (?p + levels b) + 1)]\<rparr>"
    using limit_sell_Inr [OF assms(1,5)] by blast+
  have high: "has_bid b s \<Longrightarrow> s \<le> c" for s
    using best_bid_Inr_iff [OF wf_lengths(2) [OF assms(1)]] assms(3) by blast
  have "has_ask b' t \<Longrightarrow> has_ask b t \<or> t = ?p" for t
    using has_ask_ask_update [OF assms(1) r(1,2)] r(3) by (auto split: if_splits)
  moreover have "has_bid b' s \<Longrightarrow> has_bid b s" for s using r(3) by simp
  ultimately have "uncrossed b'"
    unfolding uncrossed_def using assms(2,4) high by (fastforce simp: uncrossed_def)
  then show ?thesis using wf_book_ask_update [OF assms(1)] r(3) by simp
qed

lemma choose_level_Inr:
  "choose_level L prob q = Inr q' \<Longrightarrow> q' = q \<and> 1 \<le> q \<and> q \<le> L"
  by (auto simp: choose_level_def arange_def Let_def bind_err_eq_Inr
      split: if_splits option.splits)

subsection \<open>The book does not cross\<close>

lemma sfgk_dispatch_cases:
  assumes "sfgk_dispatch b market_event L q net_buys net_sells = Inr b'"
  shows "market_buy b 1 = Inr b' \<or> market_sell b 1 = Inr b'
       \<or> (\<exists>a q'. choose_level L None q = Inr q' \<and> best_ask b = Inr a
             \<and> limit_buy b (a - q') 1 = Inr b')
       \<or> (\<exists>c q'. choose_level L None q = Inr q' \<and> best_bid b = Inr c
             \<and> limit_sell b (c + q') 1 = Inr b')
       \<or> b' = b"
proof (cases "market_event = ''market_buy''")
  case True
  then show ?thesis using assms by (simp add: sfgk_dispatch_def)
next
  case n1: False
  show ?thesis
  proof (cases "market_event = ''market_sell''")
    case True
    then show ?thesis using assms by (simp add: sfgk_dispatch_def)
  next
    case n2: False
    show ?thesis
    proof (cases "market_event = ''limit_buy''")
      case True
      then have "bind_err (choose_level L None q) (\<lambda>q.
          bind_err (best_ask b) (\<lambda>a. limit_buy b (a - q) 1)) = Inr b'"
        using assms by (simp add: sfgk_dispatch_def)
      then show ?thesis unfolding bind_err_eq_Inr by blast
    next
      case n3: False
      show ?thesis
      proof (cases "market_event = ''limit_sell''")
        case True
        then have "bind_err (choose_level L None q) (\<lambda>q.
            bind_err (best_bid b) (\<lambda>c. limit_sell b (c + q) 1)) = Inr b'"
          using assms by (simp add: sfgk_dispatch_def)
        then show ?thesis unfolding bind_err_eq_Inr by blast
      next
        case n4: False
        have "(if market_event = ''cancel_buy'' then Inl TypeError
               else if market_event = ''cancel_sell'' then Inl TypeError else Inr b) = Inr b'"
          using assms n1 n2 n3 n4 unfolding sfgk_dispatch_def by (simp only: if_False)
        then have "b' = b"
          by (cases "market_event = ''cancel_buy''"; cases "market_event = ''cancel_sell''")
             simp_all
        then show ?thesis by blast
      qed
    qed
  qed
qed

lemma sfgk_dispatch_preserves:
  assumes "wf_book b" "uncrossed b"
    "sfgk_dispatch b market_event L q net_buys net_sells = Inr b'"
  shows "wf_book b' \<and> uncrossed b'"
proof -
  consider (mb) "market_buy b 1 = Inr b'"
    | (ms) "market_sell b 1 = Inr b'"
    | (lb) a q' where "choose_level L None q = Inr q'" "best_ask b = Inr a"
        "limit_buy b (a - q') 1 = Inr b'"
    | (ls) c q' where "choose_level L None q = Inr q'" "best_bid b = Inr c"
        "limit_sell b (c + q') 1 = Inr b'"
    | (same) "b' = b"
    using sfgk_dispatch_cases [OF assms(3)] by blast
  then show ?thesis
  proof cases
    case mb
    then show ?thesis using market_buy_preserves [OF assms(1,2)] by blast
  next
    case ms
    then show ?thesis using market_sell_preserves [OF assms(1,2)] by blast
  next
    case lb
    then show ?thesis
      using limit_buy_preserves [OF assms(1,2) lb(2), of q' b'] choose_level_Inr [OF lb(1)]
      by blast
  next
    case ls
    then show ?thesis
      using limit_sell_preserves [OF assms(1,2) ls(2), of q' b'] choose_level_Inr [OF ls(1)]
      by blast
  next
    case same
    then show ?thesis using assms by simp
  qed
qed

lemma cst_dispatch_cases:
  assumes "cst_dispatch b market_event lamdas thetas cb cs cum_lam cb_rates cs_rates L q = Inr b'"
  shows "market_buy b 1 = Inr b' \<or> market_sell b 1 = Inr b'
       \<or> (\<exists>a q' pr. choose_level L pr q = Inr q' \<and> best_ask b = Inr a
             \<and> limit_buy b (a - q') 1 = Inr b')
       \<or> (\<exists>c q' pr. choose_level L pr q = Inr q' \<and> best_bid b = Inr c
             \<and> limit_sell b (c + q') 1 = Inr b')
       \<or> (\<exists>a q' pr. choose_level L pr q = Inr q' \<and> best_ask b = Inr a
             \<and> cancel_buy b (Some (a - q')) None 1 = Inr b')
       \<or> (\<exists>p. cancel_sell b (Some p) None 1 = Inr b')
       \<or> b' = b"
proof (cases "market_event = ''market_buy''")
  case True
  then show ?thesis using assms by (simp add: cst_dispatch_def)
next
  case n1: False
  show ?thesis
  proof (cases "market_event = ''market_sell''")
    case True
    then show ?thesis using assms by (simp add: cst_dispatch_def)
  next
    case n2: False
    show ?thesis
    proof (cases "market_event = ''limit_buy''")
      case True
      then have "bind_err (choose_level L (Some (map (\<lambda>x. x / cum_lam) lamdas)) q) (\<lambda>q.
          bind_err (best_ask b) (\<lambda>a. limit_buy b (a - q) 1)) = Inr b'"
        using assms by (simp add: cst_dispatch_def)
      then show ?thesis unfolding bind_err_eq_Inr by blast
    next
      case n3: False
      show ?thesis
      proof (cases "market_event = ''limit_sell''")
        case True
        then have "bind_err (choose_level L (Some (map (\<lambda>x. x / cum_lam) lamdas)) q) (\<lambda>q.
            bind_err (best_bid b) (\<lambda>c. limit_sell b (c + q) 1)) = Inr b'"
          using assms by (simp add: cst_dispatch_def)
        then show ?thesis unfolding bind_err_eq_Inr by blast
      next
        case n4: False
        show ?thesis
        proof (cases "market_event = ''cancel_buy''")
          case True
          then have "bind_err (broadcast (\<lambda>x y. x * of_int y) thetas cb) (\<lambda>w.
              bind_err (choose_level L (Some (map (\<lambda>x. x / cb_rates) w)) q) (\<lambda>q.
              bind_err (best_ask b) (\<lambda>a. cancel_buy b (Some (a - q)) None 1))) = Inr b'"
            using assms by (simp add: cst_dispatch_def)
          then show ?thesis unfolding bind_err_eq_Inr by blast
        next
          case n5: False
          show ?thesis
          proof (cases "market_event = ''cancel_sell''")
            case True
            then have "bind_err (broadcast (\<lambda>x y. x * of_int y) thetas cs) (\<lambda>w.
                bind_err (choose_level L (Some (map (\<lambda>x. x / cs_rates) w)) q) (\<lambda>q.
                bind_err (best_bid b) (\<lambda>c. cancel_sell b (Some (c + q)) None 1))) = Inr b'"
              using assms by (simp add: cst_dispatch_def)
            then show ?thesis unfolding bind_err_eq_Inr by blast
          next
            case n6: False
            have "(Inr b :: error + book) = Inr b'"
              using assms unfolding cst_dispatch_def by (simp only: n1 n2 n3 n4 n5 n6 if_False)
            then show ?thesis by simp
          qed
        qed
      qed
    qed
  qed
qed

lemma cst_dispatch_preserves:
  assumes "wf_book b" "uncrossed b"
    "cst_dispatch b market_event lamdas thetas cb cs cum_lam cb_rates cs_rates L q = Inr b'"
  shows "wf_book b' \<and> uncrossed b'"
proof -
  consider (mb) "market_buy b 1 = Inr b'"
    | (ms) "market_sell b 1 = Inr b'"
    | (lb) a q' pr where "choose_level L pr q = Inr q'" "best_ask b = Inr a"
        "limit_buy b (a - q') 1 = Inr b'"
    | (ls) c q' pr where "choose_level L pr q = Inr q'" "best_bid b = Inr c"
        "limit_sell b (c + q') 1 = Inr b'"
    | (cb) a q' pr where "choose_level L pr q = Inr q'" "best_ask b = Inr a"
        "cancel_buy b (Some (a - q')) None 1 = Inr b'"
    | (cs) p where "cancel_sell b (Some p) None 1 = Inr b'"
    | (same) "b' = b"
    using cst_dispatch_cases [OF assms(3)] by blast
  then show ?thesis
  proof cases
    case mb
    then show ?thesis using market_buy_preserves [OF assms(1,2)] by blast
  next
    case ms
    then show ?thesis using market_sell_preserves [OF assms(1,2)] by blast
  next
    case lb
    then show ?thesis
      using limit_buy_preserves [OF assms(1,2) lb(2), of q' b'] choose_level_Inr [OF lb(1)]
      by blast
  next
    case ls
    then show ?thesis
      using limit_sell_preserves [OF assms(1,2) ls(2), of q' b'] choose_level_Inr [OF ls(1)]
      by blast
  next
    case cb
    then show ?thesis
      using cancel_buy_preserves [OF assms(1,2) cb(2), of q' None b'] choose_level_Inr [OF cb(1)]
      by blast
  next
    case cs
    then show ?thesis using cancel_sell_never_returns by blast
  next
    case same
    then show ?thesis using assms by simp
  qed
qed

lemma uncrossed_init: "uncrossed Book_init"
  by (auto simp: uncrossed_def has_ask_init has_bid_init)

lemma reachable_invariant: "reachable b \<Longrightarrow> wf_book b \<and> uncrossed b"
proof (induction rule: reachable.induct)
  case initial
  show ?case using wf_book_init uncrossed_init by simp
next
  case (sfgk_event b market_event L q net_buys net_sells b')
  then show ?case using sfgk_dispatch_preserves by blast
next
  case (cst_event b market_event lamdas thetas cb cs cum_lam cb_rates cs_rates L q b')
  then show ?case using cst_dispatch_preserves by blast
qed

lemma spread_uncrossed:
  assumes "wf_book b" "uncrossed b" "has_ask b t" "has_bid b s"
  shows "\<exists>a c. best_ask b = Inr a \<and> best_bid b = Inr c \<and> spread b = Inr (a - c) \<and> 0 < a - c"
proof -
  obtain a where a: "best_ask b = Inr a"
    using best_ask_exists [OF wf_lengths(1) [OF assms(1)] assms(3)] by blast
  obtain c where c: "best_bid b = Inr c"
    using best_bid_exists [OF wf_lengths(2) [OF assms(1)] assms(4)] by blast
  have "has_ask b a" using best_ask_Inr_iff [OF wf_lengths(1) [OF assms(1)]] a by blast
  moreover have "has_bid b c" using best_bid_Inr_iff [OF wf_lengths(2) [OF assms(1)]] c by blast
  ultimately have "c < a" using assms(2) by (simp add: uncrossed_def)
  then show ?thesis using a c by (simp add: spread_def)
qed

text \<open>
  Claim C9. Take the states reached from the freshly constructed book by the operations
  that the two event models dispatch, for any event name and any draw. In each of them,
  when both sides are non-empty, \<open>spread\<close> returns \<open>best_ask - best_bid\<close> and the value is
  not negative: the book does not cross.
\<close>

theorem book_never_crosses:
  assumes "reachable b" "has_ask b t" "has_bid b s"
  shows "\<exists>a c. best_ask b = Inr a \<and> best_bid b = Inr c \<and> spread b = Inr (a - c) \<and> 0 \<le> a - c"
proof -
  have "wf_book b" "uncrossed b" using reachable_invariant [OF assms(1)] by blast+
  then obtain a c where "best_ask b = Inr a" "best_bid b = Inr c" "spread b = Inr (a - c)"
      "0 < a - c"
    using spread_uncrossed assms(2,3) by blast
  then show ?thesis by (intro exI [of _ a] exI [of _ c]) simp
qed

lemma sfgk_market_buy_init:
  "sfgk_dispatch Book_init ''market_buy'' 20 1 0 0 =
     Inr (Book_init\<lparr>ask_size := (ask_size Book_init)[1001 := 0]\<rparr>)"
  using market_buy_init_1 by (simp add: sfgk_dispatch_def)

lemma sfgk_limit_buy_after:
  "sfgk_dispatch (Book_init\<lparr>ask_size := (ask_size Book_init)[1001 := 0]\<rparr>) ''limit_buy''
      2 1 0 0
   = Inr (Book_init\<lparr>ask_size := (ask_size Book_init)[1001 := 0],
                   bid_size := (bid_size Book_init)[1001 := 1]\<rparr>)"
proof -
  let ?b1 = "Book_init\<lparr>ask_size := (ask_size Book_init)[1001 := 0]\<rparr>"
  have wf1: "wf_book ?b1" using wf_book_ask_update [OF wf_book_init] .
  have h: "has_ask ?b1 t \<longleftrightarrow> 2 \<le> t \<and> t \<le> 1000" for t
    using has_ask_ask_update [OF wf_book_init, of 1 0 t] has_ask_init [of t]
    by (auto simp: levels_init)
  have a: "best_ask ?b1 = Inr 2"
    by (simp add: best_ask_Inr_iff [OF wf_lengths(1) [OF wf1]] h)
  have "limit_buy ?b1 1 1
      = Inr (?b1\<lparr>bid_size := (bid_size ?b1)[1001 := wrap64 (bid_size ?b1 ! 1001 + 1)]\<rparr>)"
    using limit_buy_wf [OF wf1, of 1 1] by (simp add: levels_init int64_small)
  then show ?thesis
    using a
    by (simp add: sfgk_dispatch_def choose_level_def arange_def nth_bid_init wrap64_small)
qed

theorem book_never_crosses_witness:
  "reachable (Book_init\<lparr>ask_size := (ask_size Book_init)[1001 := 0],
                        bid_size := (bid_size Book_init)[1001 := 1]\<rparr>)
   \<and> has_ask (Book_init\<lparr>ask_size := (ask_size Book_init)[1001 := 0],
                        bid_size := (bid_size Book_init)[1001 := 1]\<rparr>) 2
   \<and> has_bid (Book_init\<lparr>ask_size := (ask_size Book_init)[1001 := 0],
                        bid_size := (bid_size Book_init)[1001 := 1]\<rparr>) 1
   \<and> (\<exists>a c. best_ask (Book_init\<lparr>ask_size := (ask_size Book_init)[1001 := 0],
                        bid_size := (bid_size Book_init)[1001 := 1]\<rparr>) = Inr a
         \<and> best_bid (Book_init\<lparr>ask_size := (ask_size Book_init)[1001 := 0],
                        bid_size := (bid_size Book_init)[1001 := 1]\<rparr>) = Inr c
         \<and> spread (Book_init\<lparr>ask_size := (ask_size Book_init)[1001 := 0],
                        bid_size := (bid_size Book_init)[1001 := 1]\<rparr>) = Inr (a - c)
         \<and> 0 \<le> a - c)"
proof -
  let ?b1 = "Book_init\<lparr>ask_size := (ask_size Book_init)[1001 := 0]\<rparr>"
  let ?b2 = "Book_init\<lparr>ask_size := (ask_size Book_init)[1001 := 0],
                        bid_size := (bid_size Book_init)[1001 := 1]\<rparr>"
  have "reachable ?b1"
    using reachable.sfgk_event [OF reachable.initial sfgk_market_buy_init] .
  then have r: "reachable ?b2"
    using reachable.sfgk_event [OF _ sfgk_limit_buy_after] by blast
  have wf1: "wf_book ?b1" using wf_book_ask_update [OF wf_book_init] .
  have a: "has_ask ?b2 2"
    using has_ask_ask_update [OF wf_book_init, of 1 0 2] has_ask_init [of 2]
    by (simp add: levels_init)
  have c: "has_bid ?b2 1"
    using has_bid_bid_update [OF wf1, of 1 1 1] by (simp add: levels_init)
  show ?thesis using book_never_crosses [OF r a c] r a c by blast
qed

subsection \<open>The drivers\<close>

lemma run_events_raises:
  assumes "0 < n" "model b (rnd k) = Inl e"
  shows "run_events n model rnd k b = Inl e"
  using assms by (cases n) simp_all

lemma sfgk_simulate_raises:
  "sfgk_simulate fl b mu lamda theta L max_events rnd = Inl AttributeError"
proof -
  have "run_events 1000 (\<lambda>b d. sfgk_model b mu lamda theta L (fst d) (snd d)) rnd 0 b
      = Inl AttributeError"
    by (rule run_events_raises) (simp_all add: sfgk_model_def buy_size_def)
  then show ?thesis by (simp add: sfgk_simulate_def average_shape_def)
qed

lemma cst_simulate_raises:
  "cst_simulate fl b mu lamdas thetas L numEvents rnd = Inl AttributeError"
proof -
  have "run_events 1000 (\<lambda>b d. cst_model b mu lamdas thetas L (fst d) (snd d)) rnd 0 b
      = Inl AttributeError"
    by (rule run_events_raises) (simp_all add: cst_model_def buy_size_def)
  then show ?thesis by (simp add: cst_simulate_def average_shape_def)
qed

text \<open>
  Claim C7. \<open>sfgk_simulate\<close> and \<open>cst_simulate\<close> raise AttributeError for every book, every
  choice of rates, every window, every number of events and every sequence of draws:
  the first event of the burn-in reads \<open>self.buy_size\<close>. No event is performed, no shape
  is sampled and no average is returned.
\<close>

theorem drivers_raise:
  "sfgk_simulate fl b mu lamda theta L max_events rnd = Inl AttributeError
   \<and> cst_simulate fl b mu lamdas thetas L numEvents rnd = Inl AttributeError"
  by (intro conjI sfgk_simulate_raises cst_simulate_raises)

end
